theory Spec2Isabelle
  imports Complex_Main "HOL-Library.Multiset" "HOL-Library.AList" "HOL-Library.Log_Nat"
begin

section \<open>Federated learning: the embedding of \<open>src/ai/models/federated_learning.py\<close>\<close>

text \<open>
  The theory embeds \<open>FederatedServer.select_clients\<close>, \<open>FederatedServer.aggregate_models\<close>,
  \<open>split_data\<close> and \<open>Client.train\<close>. Conventions:
  \<^item> An exception is a value \<open>Inl e\<close> of the type \<open>error\<close>; a function that mutates
    objects returns the new state next to its result.
  \<^item> A Python float is a value of \<open>pyfloat\<close>: a real number, an infinity or NaN, with
    every operation rounded to the nearest float, ties to even. The sign of a zero is not
    kept; none of the operations used here depends on it.
  \<^item> The entries of a tensor have the arithmetic of the tensor's dtype, a parameter of the
    model; \<open>float32\<close> is the dtype of the parameters of \<open>SimpleModel\<close>.
  \<^item> The standard-library and torch operations the functions call (\<open>random.shuffle\<close>,
    \<open>random.sample\<close>, \<open>set\<close> and \<open>sorted\<close> on labels, tensor arithmetic,
    \<open>load_state_dict\<close>) are modelled after the libraries' own code; each model says
    what it covers.
\<close>

subsection \<open>Exceptions\<close>

text \<open>
  Only the exceptions the code can raise. Python reports a failed tensor addition and a
  failed \<open>load_state_dict\<close> both as \<open>RuntimeError\<close>; the argument records which of
  the two raised it.
\<close>

datatype raised_by = TensorAdd | LoadStateDict

datatype error =
    IndexError
  | KeyError string
  | ZeroDivisionError
  | ValueError
  | OverflowError
  | RuntimeError raised_by

subsection \<open>Floats\<close>

datatype pyfloat = Finite real | PosInf | NegInf | NaN

text \<open>
  \<open>exponent2 x\<close> is the binary exponent of a positive \<open>x\<close>: the \<open>e\<close> with
  \<open>2^e <= x < 2^(e+1)\<close> (lemma \<open>exponent2_bounds\<close>). \<open>round_half_even\<close> rounds to
  the nearest integer, a tie to the even one.
\<close>

definition exponent2 :: "real \<Rightarrow> int" where
  "exponent2 x = (if 1 \<le> x then bitlen \<lfloor>x\<rfloor> - 1 else - bitlen (\<lceil>1 / x\<rceil> - 1))"

definition round_half_even :: "real \<Rightarrow> int" where
  "round_half_even y =
     (let f = \<lfloor>y\<rfloor>
      in if y - of_int f < 1 / 2 then f
         else if 1 / 2 < y - of_int f then f + 1
         else if even f then f else f + 1)"

text \<open>
  Rounding to a binary format of precision \<open>p\<close> bits with the exponents \<open>emin\<close> to
  \<open>emax\<close>. \<open>ulp\<close> is the spacing of the format's numbers around \<open>x\<close> (below
  \<open>2^emin\<close> the spacing of the subnormal numbers); \<open>round_real\<close> is the nearest
  multiple of it; a result of magnitude \<open>2^(emax+1)\<close> or more is an infinity.
  \<open>round64\<close> is Python's float (binary64), \<open>round32\<close> torch's float32.
\<close>

definition ulp :: "nat \<Rightarrow> int \<Rightarrow> real \<Rightarrow> real" where
  "ulp p emin x = 2 powi (max (exponent2 \<bar>x\<bar>) emin - (int p - 1))"

definition round_real :: "nat \<Rightarrow> int \<Rightarrow> real \<Rightarrow> real" where
  "round_real p emin x = of_int (round_half_even (x / ulp p emin x)) * ulp p emin x"

definition round_to :: "nat \<Rightarrow> int \<Rightarrow> int \<Rightarrow> real \<Rightarrow> pyfloat" where
  "round_to p emin emax x =
     (if x = 0 then Finite 0
      else let r = round_real p emin x
           in if 2 powi (emax + 1) \<le> r then PosInf
              else if r \<le> - (2 powi (emax + 1)) then NegInf
              else Finite r)"

definition round64 :: "real \<Rightarrow> pyfloat" where
  "round64 = round_to 53 (- 1022) 1023"

definition round32 :: "real \<Rightarrow> pyfloat" where
  "round32 = round_to 24 (- 126) 127"

text \<open>
  Multiplication and addition of floats in a format with the rounding \<open>rnd\<close>: NaN
  propagates, zero times an infinity and the sum of opposite infinities are NaN, and the
  exact result of two finite operands is rounded. \<open>fl_cast\<close> converts a float to the
  format.
\<close>

fun fl_neg :: "pyfloat \<Rightarrow> pyfloat" where
  "fl_neg (Finite x) = Finite (- x)"
| "fl_neg PosInf = NegInf"
| "fl_neg NegInf = PosInf"
| "fl_neg NaN = NaN"

fun fl_mul :: "(real \<Rightarrow> pyfloat) \<Rightarrow> pyfloat \<Rightarrow> pyfloat \<Rightarrow> pyfloat" where
  "fl_mul rnd (Finite x) (Finite y) = rnd (x * y)"
| "fl_mul rnd NaN b = NaN"
| "fl_mul rnd a NaN = NaN"
| "fl_mul rnd (Finite x) b = (if x = 0 then NaN else if 0 < x then b else fl_neg b)"
| "fl_mul rnd a (Finite y) = (if y = 0 then NaN else if 0 < y then a else fl_neg a)"
| "fl_mul rnd PosInf b = b"
| "fl_mul rnd NegInf b = fl_neg b"

fun fl_add :: "(real \<Rightarrow> pyfloat) \<Rightarrow> pyfloat \<Rightarrow> pyfloat \<Rightarrow> pyfloat" where
  "fl_add rnd (Finite x) (Finite y) = rnd (x + y)"
| "fl_add rnd NaN b = NaN"
| "fl_add rnd a NaN = NaN"
| "fl_add rnd (Finite x) b = b"
| "fl_add rnd a (Finite y) = a"
| "fl_add rnd PosInf PosInf = PosInf"
| "fl_add rnd NegInf NegInf = NegInf"
| "fl_add rnd PosInf NegInf = NaN"
| "fl_add rnd NegInf PosInf = NaN"

fun fl_cast :: "(real \<Rightarrow> pyfloat) \<Rightarrow> pyfloat \<Rightarrow> pyfloat" where
  "fl_cast rnd (Finite x) = rnd x"
| "fl_cast rnd a = a"

text \<open>
  Division by a divisor that is not zero: an infinity by an infinity is NaN, a finite
  number by an infinity is zero, an infinity by a finite number keeps or changes its sign.
\<close>

fun fl_div :: "(real \<Rightarrow> pyfloat) \<Rightarrow> pyfloat \<Rightarrow> pyfloat \<Rightarrow> pyfloat" where
  "fl_div rnd (Finite x) (Finite y) = rnd (x / y)"
| "fl_div rnd NaN b = NaN"
| "fl_div rnd a NaN = NaN"
| "fl_div rnd (Finite x) b = Finite 0"
| "fl_div rnd a (Finite y) = (if 0 < y then a else fl_neg a)"
| "fl_div rnd a b = NaN"

text \<open>
  An integer operand of a float operation is converted to a float first, which raises
  \<open>OverflowError\<close> when it is too large. \<open>int(x)\<close> on a float truncates towards zero
  and raises \<open>OverflowError\<close> on an infinity and \<open>ValueError\<close> on NaN.
\<close>

definition to_float :: "int \<Rightarrow> error + pyfloat" where
  "to_float n =
     (case round64 (of_int n) of
        Finite x \<Rightarrow> Inr (Finite x)
      | PosInf \<Rightarrow> Inl OverflowError
      | NegInf \<Rightarrow> Inl OverflowError
      | NaN \<Rightarrow> Inl OverflowError)"

text \<open>
  \<open>x / n\<close> for a float \<open>x\<close> and an integer \<open>n\<close>: the integer is converted, and a
  divisor of zero raises \<open>ZeroDivisionError\<close>.
\<close>

definition float_div_int :: "pyfloat \<Rightarrow> int \<Rightarrow> error + pyfloat" where
  "float_div_int x n =
     (case to_float n of
        Inl e \<Rightarrow> Inl e
      | Inr d \<Rightarrow> if d = Finite 0 then Inl ZeroDivisionError else Inr (fl_div round64 x d))"

definition py_int :: "pyfloat \<Rightarrow> error + int" where
  "py_int x =
     (case x of
        Finite r \<Rightarrow> Inr (if 0 \<le> r then \<lfloor>r\<rfloor> else \<lceil>r\<rceil>)
      | PosInf \<Rightarrow> Inl OverflowError
      | NegInf \<Rightarrow> Inl OverflowError
      | NaN \<Rightarrow> Inl ValueError)"

subsection \<open>Tensors, objects and state dicts\<close>

text \<open>
  A tensor is one-dimensional: the list of its entries, its shape being the length. The
  entries are values of a type \<open>'f\<close>, and a \<open>dtype\<close> gives the three operations
  \<open>aggregate_models\<close> performs on them: \<open>entry * weight\<close> for a Python float,
  \<open>entry + entry\<close>, and \<open>integer + entry\<close>.
  Tensors are objects: a state dict maps parameter names to references (addresses), and
  the heap gives the tensor stored at each address. \<open>Module.state_dict()\<close> returns
  references to the module's own parameter storage, so the global model is itself given by
  the state dict of its parameters, in registration order.
\<close>

record 'f dtype =
  entry_mul :: "'f \<Rightarrow> pyfloat \<Rightarrow> 'f"
  entry_add :: "'f \<Rightarrow> 'f \<Rightarrow> 'f"
  int_add :: "int \<Rightarrow> 'f \<Rightarrow> 'f"

text \<open>
  float32: the Python float is converted to float32 and the product is rounded to float32;
  sums are rounded to float32; an integer is converted to float32 before it is added.
\<close>

definition float32 :: "pyfloat dtype" where
  "float32 =
     \<lparr>entry_mul = (\<lambda>x w. fl_mul round32 x (fl_cast round32 w)),
      entry_add = fl_add round32,
      int_add = (\<lambda>n x. fl_add round32 (round32 (of_int n)) x)\<rparr>"

type_synonym addr = nat
type_synonym 'f heap = "addr \<Rightarrow> 'f list"
type_synonym state_dict = "(string \<times> addr) list"

text \<open>
  A value computed inside \<open>aggregate_models\<close>: the integer \<open>sum\<close> starts from, or a
  freshly allocated tensor. Nothing else refers to a fresh tensor, so the local dict
  \<open>global_dict\<close> holds such values directly.
\<close>

datatype 'f pyval = PyInt int | PyTensor "'f list"

type_synonym 'f local_dict = "(string \<times> 'f pyval) list"

text \<open>\<open>tensor * weight\<close>: a new tensor, every entry multiplied by the float.\<close>

definition tensor_mul :: "'f dtype \<Rightarrow> 'f list \<Rightarrow> pyfloat \<Rightarrow> 'f list" where
  "tensor_mul D t w = map (\<lambda>x. entry_mul D x w) t"

text \<open>
  \<open>a + b\<close> on one-dimensional tensors, with torch's broadcasting: equal shapes add
  entry by entry, a shape of one entry is stretched to the other, and any other pair of
  shapes raises \<open>RuntimeError\<close>.
\<close>

definition tensor_add :: "'f dtype \<Rightarrow> 'f list \<Rightarrow> 'f list \<Rightarrow> error + 'f list" where
  "tensor_add D a b =
     (if length a = length b then Inr (map (\<lambda>(x, y). entry_add D x y) (zip a b))
      else if length b = 1 then Inr (map (\<lambda>x. entry_add D x (hd b)) a)
      else if length a = 1 then Inr (map (\<lambda>y. entry_add D (hd a) y) b)
      else Inl (RuntimeError TensorAdd))"

text \<open>\<open>acc + item\<close> as \<open>sum\<close> computes it: \<open>0 + tensor\<close> adds the integer to every entry.\<close>

fun py_add :: "'f dtype \<Rightarrow> 'f pyval \<Rightarrow> 'f list \<Rightarrow> error + 'f pyval" where
  "py_add D (PyInt n) t = Inr (PyTensor (map (int_add D n) t))"
| "py_add D (PyTensor a) t =
     (case tensor_add D a t of Inl e \<Rightarrow> Inl e | Inr s \<Rightarrow> Inr (PyTensor s))"

subsection \<open>\<open>FederatedServer\<close>\<close>

record server =
  global_model :: state_dict
  num_clients :: int
  client_fraction :: pyfloat

text \<open>
  \<open>sum(client_dict[key] * weight for client_dict, weight in zip(client_updates, client_weights))\<close>:
  the generator is consumed from the left; \<open>client_dict[key]\<close> raises \<open>KeyError\<close> when
  the update lacks the key. The argument \<open>cw\<close> is the zipped list.
\<close>

fun py_sum ::
  "'f dtype \<Rightarrow> 'f heap \<Rightarrow> string \<Rightarrow> 'f pyval \<Rightarrow> (state_dict \<times> pyfloat) list \<Rightarrow> error + 'f pyval" where
  "py_sum D h k acc [] = Inr acc"
| "py_sum D h k acc ((client_dict, weight) # cw) =
     (case map_of client_dict k of
        None \<Rightarrow> Inl (KeyError k)
      | Some a \<Rightarrow>
          (case py_add D acc (tensor_mul D (h a) weight) of
             Inl e \<Rightarrow> Inl e
           | Inr acc' \<Rightarrow> py_sum D h k acc' cw))"

text \<open>\<open>copy.deepcopy(client_updates[0])\<close>: a dict of fresh copies of the tensors.\<close>

definition deepcopy :: "'f heap \<Rightarrow> state_dict \<Rightarrow> 'f local_dict" where
  "deepcopy h d = map (\<lambda>(k, a). (k, PyTensor (h a))) d"

text \<open>
  \<open>for key in global_dict.keys(): global_dict[key] = sum(...)\<close>. The assignment rebinds
  the key of the local dict; it writes to no tensor.
\<close>

fun aggregate_keys ::
  "'f dtype \<Rightarrow> 'f heap \<Rightarrow> (state_dict \<times> pyfloat) list \<Rightarrow> string list \<Rightarrow> 'f local_dict
     \<Rightarrow> error + 'f local_dict" where
  "aggregate_keys D h cw [] global_dict = Inr global_dict"
| "aggregate_keys D h cw (k # ks) global_dict =
     (case py_sum D h k (PyInt 0) cw of
        Inl e \<Rightarrow> Inl e
      | Inr v \<Rightarrow> aggregate_keys D h cw ks (AList.update k v global_dict))"

text \<open>
  \<open>Module.load_state_dict(state_dict)\<close> with its default \<open>strict=True\<close>, as torch
  implements it: it visits the module's parameters in order; an entry of \<open>state_dict\<close>
  that is a tensor of the parameter's shape is copied into the parameter in place
  (\<open>param.copy_(input_param)\<close>); a missing key, a value that is no tensor and a shape
  mismatch are recorded and the visit goes on. Keys of \<open>state_dict\<close> that name no
  parameter are recorded as unexpected. Only after the visit, when anything was recorded,
  \<open>RuntimeError\<close> is raised: the parameters copied by then stay copied.
\<close>

fun load_from_state_dict ::
  "'f local_dict \<Rightarrow> state_dict \<Rightarrow> 'f heap \<Rightarrow> string list \<Rightarrow> 'f heap \<times> string list" where
  "load_from_state_dict sd [] h error_msgs = (h, error_msgs)"
| "load_from_state_dict sd ((k, a) # params) h error_msgs =
     (case map_of sd k of
        None \<Rightarrow> load_from_state_dict sd params h (error_msgs @ [k])
      | Some (PyInt n) \<Rightarrow> load_from_state_dict sd params h (error_msgs @ [k])
      | Some (PyTensor t) \<Rightarrow>
          if length t \<noteq> length (h a)
          then load_from_state_dict sd params h (error_msgs @ [k])
          else load_from_state_dict sd params (h(a := t)) error_msgs)"

definition load_state_dict ::
  "state_dict \<Rightarrow> 'f local_dict \<Rightarrow> 'f heap \<Rightarrow> (error + unit) \<times> 'f heap" where
  "load_state_dict model sd h =
     (case load_from_state_dict sd model h [] of
        (h', error_msgs) \<Rightarrow>
          (let unexpected_keys = filter (\<lambda>k. k \<notin> set (map fst model)) (map fst sd)
           in if error_msgs = [] \<and> unexpected_keys = [] then (Inr (), h')
              else (Inl (RuntimeError LoadStateDict), h')))"

text \<open>
  \<open>aggregate_models(self, client_updates, client_weights=None)\<close>, on tensors of the
  dtype \<open>D\<close>. The result is the exception or the returned \<open>self.global_model\<close>, and the
  heap after the call. The default weight \<open>1.0 / len(client_updates)\<close> is a division
  of Python floats, rounded as such. \<open>client_updates[0]\<close> raises \<open>IndexError\<close> on the
  empty list (the default weights of an empty list are the empty list: no division is
  evaluated).
\<close>

definition default_weight :: "nat \<Rightarrow> pyfloat" where
  "default_weight n = round64 (1 / real n)"

definition aggregate_models ::
  "'f dtype \<Rightarrow> server \<Rightarrow> 'f heap \<Rightarrow> state_dict list \<Rightarrow> pyfloat list option
     \<Rightarrow> (error + state_dict) \<times> 'f heap" where
  "aggregate_models D srv h client_updates client_weights =
     (let weights =
        (case client_weights of
           None \<Rightarrow> map (\<lambda>_. default_weight (length client_updates)) [0..<length client_updates]
         | Some ws \<Rightarrow> ws)
      in case client_updates of
           [] \<Rightarrow> (Inl IndexError, h)
         | first # _ \<Rightarrow>
             (case aggregate_keys D h (zip client_updates weights) (map fst first)
                     (deepcopy h first) of
                Inl e \<Rightarrow> (Inl e, h)
              | Inr global_dict \<Rightarrow>
                  (case load_state_dict (global_model srv) global_dict h of
                     (Inl e, h') \<Rightarrow> (Inl e, h')
                   | (Inr _, h') \<Rightarrow> (Inr (global_model srv), h'))))"

text \<open>
  Vocabulary for statements about \<open>aggregate_models\<close>. \<open>tensor_of h d k\<close> is the
  tensor \<open>d[k]\<close> of a dict that has the key. \<open>compatible h model u\<close> is the parameter
  store invariant: the update \<open>u\<close> has the key set of the global model and, for every
  key, a tensor of the shape of the model's parameter. \<open>separate_parameters\<close> says
  that no two parameters of the model share their storage.
\<close>

definition tensor_of :: "'f heap \<Rightarrow> state_dict \<Rightarrow> string \<Rightarrow> 'f list" where
  "tensor_of h d k = h (the (map_of d k))"







subsection \<open>The generator of Python's \<open>random\<close> module\<close>

text \<open>
  The state of the generator is the sequence of raw numbers its future draws return;
  \<open>randbelow g n\<close> is \<open>random._randbelow(n)\<close>: a number below \<open>n\<close> and the state after
  the draw.
\<close>

type_synonym rng = "nat \<Rightarrow> nat"

definition randbelow :: "rng \<Rightarrow> nat \<Rightarrow> nat \<times> rng" where
  "randbelow g n = (g 0 mod n, \<lambda>i. g (Suc i))"

text \<open>
  \<open>random.shuffle(x)\<close>:
  \<^verbatim>\<open>for i in reversed(range(1, len(x))): j = randbelow(i + 1); x[i], x[j] = x[j], x[i]\<close>
\<close>

fun shuffle_from :: "nat \<Rightarrow> rng \<Rightarrow> 'a list \<Rightarrow> 'a list \<times> rng" where
  "shuffle_from 0 g x = (x, g)"
| "shuffle_from (Suc i) g x =
     (case randbelow g (Suc i + 1) of
        (j, g') \<Rightarrow> shuffle_from i g' (x[Suc i := x ! j, j := x ! Suc i]))"

definition shuffle :: "rng \<Rightarrow> 'a list \<Rightarrow> 'a list \<times> rng" where
  "shuffle g x = shuffle_from (length x - 1) g x"

text \<open>
  \<open>random.sample(population, k)\<close>: \<open>ValueError\<close> unless \<open>0 <= k <= len(population)\<close>;
  otherwise the library's selection from a pool,
  \<^verbatim>\<open>for i in range(k): j = randbelow(n - i); result[i] = pool[j]; pool[j] = pool[n - i - 1]\<close>
  where the pool below holds the \<open>n - i\<close> entries not selected yet. The library takes
  this branch for a population of up to 21 elements; for a larger one and a small \<open>k\<close>
  it draws indices and rejects those drawn before, which also returns \<open>k\<close> distinct
  elements of the population, in general other ones for the same draws.
\<close>

fun sample_from :: "nat \<Rightarrow> rng \<Rightarrow> 'a list \<Rightarrow> 'a list \<times> rng" where
  "sample_from 0 g pool = ([], g)"
| "sample_from (Suc k) g pool =
     (case randbelow g (length pool) of
        (j, g') \<Rightarrow>
          (case sample_from k g' (butlast (pool[j := last pool])) of
             (result, g'') \<Rightarrow> (pool ! j # result, g'')))"

definition sample :: "rng \<Rightarrow> 'a list \<Rightarrow> int \<Rightarrow> (error + 'a list) \<times> rng" where
  "sample g population k =
     (if 0 \<le> k \<and> k \<le> int (length population)
      then (case sample_from (nat k) g population of (result, g') \<Rightarrow> (Inr result, g'))
      else (Inl ValueError, g))"


subsection \<open>\<open>FederatedServer.select_clients\<close>\<close>

text \<open>
  \<^verbatim>\<open>num_selected = max(1, int(self.num_clients * self.client_fraction))\<close>
  \<^verbatim>\<open>selected_clients = random.sample(range(self.num_clients), num_selected)\<close>
  The product is a product of floats, \<open>int_times_float\<close>: \<open>num_clients\<close> is
  converted to a float and the product is rounded. \<open>range(n)\<close> is empty for
  \<open>n <= 0\<close>, and \<open>random.sample\<close> takes its length first, which raises
  \<open>OverflowError\<close> beyond \<open>sys.maxsize\<close> (here that of a 64-bit build).
\<close>

definition ssize_max :: int where
  "ssize_max = 2 ^ 63 - 1"

definition int_times_float :: "int \<Rightarrow> pyfloat \<Rightarrow> error + pyfloat" where
  "int_times_float n x =
     (case to_float n of Inl e \<Rightarrow> Inl e | Inr a \<Rightarrow> Inr (fl_mul round64 a x))"

definition select_clients :: "server \<Rightarrow> rng \<Rightarrow> (error + nat list) \<times> rng" where
  "select_clients srv g =
     (case int_times_float (num_clients srv) (client_fraction srv) of
        Inl e \<Rightarrow> (Inl e, g)
      | Inr product \<Rightarrow>
          (case py_int product of
             Inl e \<Rightarrow> (Inl e, g)
           | Inr k \<Rightarrow>
               (let num_selected = max 1 k
                in if ssize_max < num_clients srv then (Inl OverflowError, g)
                   else sample g [0..<nat (num_clients srv)] num_selected)))"

subsection \<open>\<open>split_data\<close>\<close>

text \<open>
  \<open>xs[a:b]\<close> for bounds that are not negative, which is all the loops of \<open>split_data\<close>
  produce: the bounds are clipped to the length, and \<open>b <= a\<close> gives the empty list.
\<close>

definition slice :: "'a list \<Rightarrow> nat \<Rightarrow> nat \<Rightarrow> 'a list" where
  "slice xs a b = take (b - a) (drop a xs)"

text \<open>
  A label is a Python int or a zero-dimensional tensor holding an integer. A
  \<open>TensorDataset\<close> builds a new tensor object at every access, so the labels the loops
  of \<open>split_data\<close> see are tensor objects that are all different objects. A dataset is
  the list of its \<open>(features, label)\<close> examples: \<open>int_labelled\<close> is a dataset with
  int labels, \<open>tensor_dataset\<close> the \<open>TensorDataset\<close> that \<open>main\<close> passes.
\<close>

datatype label = IntLabel int | TensorLabel int

fun label_value :: "label \<Rightarrow> int" where
  "label_value (IntLabel v) = v"
| "label_value (TensorLabel v) = v"

definition int_labelled :: "('f \<times> int) list \<Rightarrow> ('f \<times> label) list" where
  "int_labelled examples = map (\<lambda>(x, y). (x, IntLabel y)) examples"


text \<open>
  \<open>set(labels)\<close> keeps one of the elements that have the same hash and are equal: ints
  hash by value, tensors by identity, so two ints of one value are one element and two
  tensor objects never are. \<open>sorted\<close> orders by comparison, which compares values.
\<close>

fun same_element :: "label \<Rightarrow> label \<Rightarrow> bool" where
  "same_element (IntLabel a) (IntLabel b) = (a = b)"
| "same_element l l' = False"

fun py_set :: "label list \<Rightarrow> label list" where
  "py_set [] = []"
| "py_set (l # ls) = (if list_ex (same_element l) ls then py_set ls else l # py_set ls)"

definition unique_labels :: "('f \<times> label) list \<Rightarrow> label list" where
  "unique_labels dataset = sort_key label_value (py_set (map snd dataset))"

text \<open>\<open>label in client_labels\<close> on a list compares with \<open>==\<close>, that is by value.\<close>

definition label_in :: "label \<Rightarrow> label list \<Rightarrow> bool" where
  "label_in l client_labels = list_ex (\<lambda>l'. label_value l' = label_value l) client_labels"

text \<open>
  A \<open>Subset(dataset, client_indices)\<close> is given by its list of indices.
  \<open>iid_shards\<close> and \<open>non_iid_shards\<close> are the two \<open>for i in range(num_clients)\<close> loops
  (the argument \<open>num_clients\<close> is written \<open>n_clients\<close>, the server's field having the name);
  \<open>range\<close> is empty when \<open>num_clients\<close> is negative, and both \<open>//\<close> raise
  \<open>ZeroDivisionError\<close> when it is zero. Python's \<open>//\<close> on integers rounds down, as
  \<open>div\<close> on \<open>int\<close> does.
\<close>

definition iid_shards :: "nat list \<Rightarrow> nat \<Rightarrow> int \<Rightarrow> nat list list" where
  "iid_shards indices data_size n_clients =
     (let chunk_size = int data_size div n_clients
      in map (\<lambda>i. let start_idx = int i * chunk_size;
                      end_idx = (if int i < n_clients - 1 then (int i + 1) * chunk_size
                                 else int data_size)
                  in slice indices (nat start_idx) (nat end_idx))
           [0..<nat n_clients])"

definition non_iid_shards :: "('f \<times> label) list \<Rightarrow> int \<Rightarrow> nat list list" where
  "non_iid_shards dataset n_clients =
     (let num_labels_per_client = int (length (unique_labels dataset)) div n_clients
      in map (\<lambda>i. let client_labels =
                        slice (unique_labels dataset) (nat (int i * num_labels_per_client))
                          (nat ((int i + 1) * num_labels_per_client))
                  in map fst (filter (\<lambda>(idx, (x, label)). label_in label client_labels)
                                (enumerate 0 dataset)))
           [0..<nat n_clients])"

definition split_data ::
  "rng \<Rightarrow> ('f \<times> label) list \<Rightarrow> int \<Rightarrow> string \<Rightarrow> (error + nat list list) \<times> rng" where
  "split_data g dataset n_clients how =
     (let data_size = length dataset
      in if how = ''iid'' then
           (case shuffle g [0..<data_size] of
              (indices, g') \<Rightarrow>
                if n_clients = 0 then (Inl ZeroDivisionError, g')
                else (Inr (iid_shards indices data_size n_clients), g'))
         else if how = ''non_iid'' then
           (if n_clients = 0 then (Inl ZeroDivisionError, g)
            else (Inr (non_iid_shards dataset n_clients), g))
         else (Inr [], g))"

text \<open>The examples a \<open>Subset\<close> holds: \<open>dataset[i]\<close> for each of its indices.\<close>

definition subset_examples :: "'e list \<Rightarrow> nat list \<Rightarrow> 'e list" where
  "subset_examples dataset client_indices = map (\<lambda>i. dataset ! i) client_indices"


subsection \<open>\<open>Client.train\<close>\<close>

text \<open>
  The client's \<open>data_loader\<close> is the list of the batches one pass yields, so
  \<open>len(self.data_loader)\<close> is its length; a loader over a shard of zero examples yields
  no batch. The forward pass, the loss and the optimizer step on one batch are a parameter
  \<open>step\<close> of the model, taking the local model to the updated one and the batch's loss.
\<close>

record ('m, 'b) client =
  client_id :: int
  data_loader :: "'b list"
  local_model :: 'm

text \<open>The inner loop: \<open>epoch_loss += loss.item()\<close> over the batches.\<close>

fun train_batches ::
  "('m \<Rightarrow> 'b \<Rightarrow> 'm \<times> pyfloat) \<Rightarrow> 'm \<Rightarrow> pyfloat \<Rightarrow> 'b list \<Rightarrow> 'm \<times> pyfloat" where
  "train_batches step m epoch_loss [] = (m, epoch_loss)"
| "train_batches step m epoch_loss (b # bs) =
     (case step m b of
        (m', loss) \<Rightarrow> train_batches step m' (fl_add round64 epoch_loss loss) bs)"

text \<open>
  The outer loop, \<open>for epoch in range(epochs)\<close>, with
  \<open>total_loss += epoch_loss / len(self.data_loader)\<close>: dividing a float by the integer
  zero raises \<open>ZeroDivisionError\<close>.
\<close>

fun train_epochs ::
  "('m \<Rightarrow> 'b \<Rightarrow> 'm \<times> pyfloat) \<Rightarrow> nat \<Rightarrow> 'b list \<Rightarrow> 'm \<Rightarrow> pyfloat
     \<Rightarrow> error + 'm \<times> pyfloat" where
  "train_epochs step 0 batches m total_loss = Inr (m, total_loss)"
| "train_epochs step (Suc n) batches m total_loss =
     (case train_batches step m (Finite 0) batches of
        (m', epoch_loss) \<Rightarrow>
          (case float_div_int epoch_loss (int (length batches)) of
             Inl e \<Rightarrow> Inl e
           | Inr q \<Rightarrow> train_epochs step n batches m' (fl_add round64 total_loss q)))"

text \<open>
  \<open>train(self, epochs=1)\<close>: \<open>range(epochs)\<close> is empty for \<open>epochs <= 0\<close>, and
  \<open>avg_loss = total_loss / epochs\<close> raises \<open>ZeroDivisionError\<close> for \<open>epochs = 0\<close>. The
  result is the trained local model and the average loss.
\<close>

definition train ::
  "('m \<Rightarrow> 'b \<Rightarrow> 'm \<times> pyfloat) \<Rightarrow> ('m, 'b) client \<Rightarrow> int \<Rightarrow> error + 'm \<times> pyfloat" where
  "train step c epochs =
     (case train_epochs step (nat epochs) (data_loader c) (local_model c) (Finite 0) of
        Inl e \<Rightarrow> Inl e
      | Inr (m, total_loss) \<Rightarrow>
          (case float_div_int total_loss epochs of
             Inl e \<Rightarrow> Inl e
           | Inr avg_loss \<Rightarrow> Inr (m, avg_loss)))"

subsection \<open>Concrete inputs\<close>

text \<open>
  A float32 global model with the one parameter \<open>w\<close> (at address 0) and two client
  updates \<open>{"w": 2.0}\<close> and \<open>{"w": 4.0}\<close> (at addresses 1 and 2).
\<close>

definition w_heap :: "pyfloat heap" where
  "w_heap = (\<lambda>a. if a = 1 then [Finite 2] else if a = 2 then [Finite 4] else [Finite 0])"

definition w_server :: server where
  "w_server = \<lparr>global_model = [(''w'', 0)], num_clients = 2, client_fraction = Finite 1\<rparr>"

definition w_updates :: "state_dict list" where
  "w_updates = [[(''w'', 1)], [(''w'', 2)]]"

text \<open>
  A list of updates whose first entry is the state dict of the global model itself (what
  \<open>server.global_model.state_dict()\<close> returns): its tensor is the parameter at address 0.
\<close>

definition aliased_updates :: "state_dict list" where
  "aliased_updates = [global_model w_server, [(''w'', 2)]]"



text \<open>
  A global model with the parameters \<open>a\<close> (one entry, address 0) and \<open>b\<close> (two
  entries, address 1); an update (addresses 2 and 3) whose \<open>b\<close> has three entries; and
  two updates for \<open>b\<close> alone whose shapes cannot be added.
\<close>

definition ab_heap :: "pyfloat heap" where
  "ab_heap = (\<lambda>x. if x = 1 then [Finite 0, Finite 0] else if x = 2 then [Finite 1]
                   else if x = 3 then [Finite 1, Finite 1, Finite 1] else [Finite 0])"

definition ab_server :: server where
  "ab_server =
     \<lparr>global_model = [(''a'', 0), (''b'', 1)], num_clients = 1, client_fraction = Finite 1\<rparr>"

definition ab_updates :: "state_dict list" where
  "ab_updates = [[(''a'', 2), (''b'', 3)]]"

definition b_updates :: "state_dict list" where
  "b_updates = [[(''b'', 1)], [(''b'', 3)]]"

text \<open>
  A generator state; the floats nearest to one third and to one fifth (Python's
  \<open>1/3\<close> and \<open>0.2\<close>); servers of five clients with a given fraction, of six clients
  with the fraction \<open>1/3\<close>, and of \<open>2^53 + 3\<close> clients with the fraction 1; a dataset
  of seven examples (features, then the label), once with int labels and once as a
  \<open>TensorDataset\<close>; and a client whose loader yields no batch, with a step that adds the
  batch to the model.
\<close>

definition zero_gen :: rng where
  "zero_gen = (\<lambda>i. 0)"

definition five_clients :: "pyfloat \<Rightarrow> server" where
  "five_clients fraction = \<lparr>global_model = [], num_clients = 5, client_fraction = fraction\<rparr>"

definition float_third :: real where
  "float_third = 6004799503160661 / 18014398509481984"

definition float_fifth :: real where
  "float_fifth = 3602879701896397 / 18014398509481984"

definition six_clients :: server where
  "six_clients = \<lparr>global_model = [], num_clients = 6, client_fraction = Finite float_third\<rparr>"

definition many_clients :: server where
  "many_clients =
     \<lparr>global_model = [], num_clients = 9007199254740995, client_fraction = Finite 1\<rparr>"

definition seven_raw :: "(nat \<times> int) list" where
  "seven_raw = [(10, 0), (11, 1), (12, 0), (13, 2), (14, 1), (15, 5), (16, 6)]"

definition seven_examples :: "(nat \<times> label) list" where
  "seven_examples = int_labelled seven_raw"


definition add_step :: "nat \<Rightarrow> nat \<Rightarrow> nat \<times> pyfloat" where
  "add_step m b = (m + b, Finite (1 / 2))"

definition idle_client :: "(nat, nat) client" where
  "idle_client = \<lparr>client_id = 0, data_loader = [], local_model = 7\<rparr>"

section \<open>Lemmas\<close>

subsection \<open>The weighted sum and the load\<close>





lemma load_from_state_dict_frame:
  "x \<notin> snd ` set ps \<Longrightarrow> fst (load_from_state_dict sd ps h errs) x = h x"
  by (induction sd ps h errs rule: load_from_state_dict.induct)
     (auto split: option.splits pyval.splits)





lemma aggregate_models_frame:
  "x \<notin> snd ` set (global_model srv) \<Longrightarrow> snd (aggregate_models D srv h ups ws) x = h x"
proof -
  assume x: "x \<notin> snd ` set (global_model srv)"
  have load: "h2 x = h x" if "load_state_dict (global_model srv) gd h = (r, h2)" for gd r h2
    using load_from_state_dict_frame [OF x, of gd h "[]"] that
    by (auto simp: load_state_dict_def Let_def split: prod.splits if_splits)
  show ?thesis
  proof (cases ups)
    case Nil
    then show ?thesis by (simp add: aggregate_models_def)
  next
    case (Cons first rest)
    then show ?thesis
      by (auto simp: aggregate_models_def Let_def split: sum.splits prod.splits dest: load)
  qed
qed

lemma load_state_dict_error:
  "load_state_dict model sd h = (Inl e, h') \<Longrightarrow> e = RuntimeError LoadStateDict"
  by (auto simp: load_state_dict_def Let_def split: prod.splits if_splits)

subsection \<open>Rounding\<close>

lemma of_int_le_pow2: "(k::int) \<le> 2 ^ n \<Longrightarrow> (of_int k :: real) \<le> 2 ^ n"
  by (metis of_int_le_iff of_int_numeral of_int_power)

lemma pow2_le_of_int: "2 ^ n \<le> (k::int) \<Longrightarrow> (2::real) ^ n \<le> of_int k"
  by (metis of_int_le_iff of_int_numeral of_int_power)

lemma powi_Suc: "(2::real) powi (int p + 1) = 2 ^ Suc p"
  using power_int_of_nat [of "2::real" "Suc p"] by (simp add: add.commute)

text \<open>The binary exponent is the one the definition claims.\<close>

lemma exponent2_bounds:
  assumes "0 < x"
  shows "2 powi exponent2 x \<le> x" and "x < 2 powi (exponent2 x + 1)"
proof -
  have "2 powi exponent2 x \<le> x \<and> x < 2 powi (exponent2 x + 1)"
  proof (cases "1 \<le> x")
    case True
    define k where "k = \<lfloor>x\<rfloor>"
    have k: "0 < k" using True by (simp add: k_def)
    from bitlen_bounds [OF k]
    have b: "2 ^ nat (bitlen k - 1) \<le> k" "k < 2 ^ nat (bitlen k)" by simp_all
    have bl: "1 \<le> bitlen k" using k by (simp add: bitlen_alt_def)
    have e: "exponent2 x = bitlen k - 1" using True by (simp add: exponent2_def k_def)
    have "(2::real) powi (bitlen k - 1) = of_int (2 ^ nat (bitlen k - 1))"
      using bl by (simp add: power_int_def)
    also have "\<dots> \<le> of_int k" using b(1) by (simp only: of_int_le_iff)
    also have "\<dots> \<le> x" by (simp add: k_def)
    finally have lo: "2 powi exponent2 x \<le> x" by (simp add: e)
    have "k + 1 \<le> 2 ^ nat (bitlen k)" using b(2) by simp
    then have "of_int (k + 1) \<le> (of_int (2 ^ nat (bitlen k)) :: real)"
      by (simp only: of_int_le_iff)
    moreover have "x < of_int (k + 1)" by (simp add: k_def)
    moreover have "(2::real) powi (bitlen k - 1 + 1) = of_int (2 ^ nat (bitlen k))"
      using bl by (simp add: power_int_def)
    ultimately have "x < 2 powi (exponent2 x + 1)" by (simp add: e)
    then show ?thesis using lo by simp
  next
    case False
    define z where "z = 1 / x"
    define m where "m = \<lceil>z\<rceil> - 1"
    have z: "1 < z" using False assms by (simp add: z_def)
    then have "2 \<le> \<lceil>z\<rceil>" by (simp add: le_ceiling_iff)
    then have m: "0 < m" by (simp add: m_def)
    from bitlen_bounds [OF m]
    have b: "2 ^ nat (bitlen m - 1) \<le> m" "m < 2 ^ nat (bitlen m)" by simp_all
    have bl: "1 \<le> bitlen m" using m by (simp add: bitlen_alt_def)
    have e: "exponent2 x = - bitlen m" using False by (simp add: exponent2_def m_def z_def)
    have "\<lceil>z\<rceil> \<le> 2 ^ nat (bitlen m)" using b(2) by (simp add: m_def)
    then have "(of_int \<lceil>z\<rceil> :: real) \<le> 2 ^ nat (bitlen m)"
      by (rule of_int_le_pow2)
    then have "z \<le> 2 ^ nat (bitlen m)" using le_of_int_ceiling [of z] by linarith
    then have "1 / 2 ^ nat (bitlen m) \<le> x"
      using assms by (simp add: z_def field_simps)
    moreover have "(2::real) powi (- bitlen m) = 1 / 2 ^ nat (bitlen m)"
      using bl by (simp add: power_int_def field_simps)
    ultimately have lo: "2 powi exponent2 x \<le> x" by (simp add: e)
    have "(2::real) ^ nat (bitlen m - 1) \<le> of_int m"
      using b(1) by (rule pow2_le_of_int)
    moreover have "of_int m < z" by (simp add: m_def) linarith
    ultimately have "2 ^ nat (bitlen m - 1) < z" by linarith
    then have "x < 1 / 2 ^ nat (bitlen m - 1)"
      using assms by (simp add: z_def field_simps)
    moreover have "(2::real) powi (- bitlen m + 1) = 1 / 2 ^ nat (bitlen m - 1)"
    proof (cases "bitlen m = 1")
      case True
      then show ?thesis by simp
    next
      case False
      then have "- bitlen m + 1 < 0" using bl by simp
      then show ?thesis
        by (simp add: power_int_def field_simps)
    qed
    ultimately have "x < 2 powi (exponent2 x + 1)" by (simp add: e)
    then show ?thesis using lo by simp
  qed
  then show "2 powi exponent2 x \<le> x" and "x < 2 powi (exponent2 x + 1)" by simp_all
qed

lemma exponent2_eqI:
  assumes "2 powi e \<le> x" and "x < 2 powi (e + 1)"
  shows "exponent2 x = e"
proof -
  have "(0::real) < 2 powi e" by simp
  then have x: "0 < x" using assms(1) by linarith
  note b = exponent2_bounds [OF x]
  have "\<not> exponent2 x < e"
  proof
    assume "exponent2 x < e"
    then have "exponent2 x + 1 \<le> e" by simp
    then have "(2::real) powi (exponent2 x + 1) \<le> 2 powi e"
      by (intro power_int_increasing) simp_all
    then show False using b(2) assms(1) by simp
  qed
  moreover have "\<not> e < exponent2 x"
  proof
    assume "e < exponent2 x"
    then have "e + 1 \<le> exponent2 x" by simp
    then have "(2::real) powi (e + 1) \<le> 2 powi exponent2 x"
      by (intro power_int_increasing) simp_all
    then show False using b(1) assms(2) by simp
  qed
  ultimately show ?thesis by simp
qed

text \<open>Rounding a number whose binary exponent is known.\<close>

lemma round_to_eval:
  assumes "2 powi e \<le> \<bar>x\<bar>" and "\<bar>x\<bar> < 2 powi (e + 1)"
  shows "round_to p emin emax x =
    (let u = 2 powi (max e emin - (int p - 1));
         r = of_int (round_half_even (x / u)) * u
     in if 2 powi (emax + 1) \<le> r then PosInf
        else if r \<le> - (2 powi (emax + 1)) then NegInf
        else Finite r)"
proof -
  have "(0::real) < 2 powi e" by simp
  then have "0 < \<bar>x\<bar>" using assms(1) by linarith
  then have "x \<noteq> 0" by simp
  moreover have "exponent2 \<bar>x\<bar> = e" using assms by (rule exponent2_eqI)
  ultimately show ?thesis
    by (simp add: round_to_def round_real_def ulp_def Let_def)
qed

lemma round_half_even_le: "y \<le> of_int K \<Longrightarrow> round_half_even y \<le> K"
proof -
  assume y: "y \<le> of_int K"
  have f: "\<lfloor>y\<rfloor> \<le> K" using y by (simp add: floor_le_iff)
  show ?thesis
  proof (cases "y - of_int \<lfloor>y\<rfloor> < 1 / 2")
    case True
    then show ?thesis using f by (simp add: round_half_even_def)
  next
    case False
    then have "of_int \<lfloor>y\<rfloor> < y" by simp
    then have "of_int \<lfloor>y\<rfloor> < (of_int K :: real)" using y by simp
    then have "\<lfloor>y\<rfloor> < K" by (simp only: of_int_less_iff)
    then show ?thesis by (simp add: round_half_even_def Let_def)
  qed
qed

lemma round_half_even_ge: "of_int K \<le> y \<Longrightarrow> K \<le> round_half_even y"
proof -
  assume "of_int K \<le> y"
  then have "K \<le> \<lfloor>y\<rfloor>" by (simp add: le_floor_iff)
  then show ?thesis by (simp add: round_half_even_def Let_def)
qed

lemma ulp_pos: "0 < ulp p emin x"
  by (simp add: ulp_def)

lemma round_real_nonneg: "0 \<le> x \<Longrightarrow> 0 \<le> round_real p emin x"
proof -
  assume "0 \<le> x"
  then have "of_int 0 \<le> x / ulp p emin x" using ulp_pos [of p emin x] by simp
  then have "0 \<le> round_half_even (x / ulp p emin x)" by (rule round_half_even_ge)
  then show ?thesis using ulp_pos [of p emin x] by (simp add: round_real_def)
qed

lemma round_real_nonpos: "x \<le> 0 \<Longrightarrow> round_real p emin x \<le> 0"
proof -
  assume "x \<le> 0"
  then have "x / ulp p emin x \<le> of_int 0"
    using ulp_pos [of p emin x] by (simp add: divide_le_0_iff)
  then have "round_half_even (x / ulp p emin x) \<le> 0" by (rule round_half_even_le)
  then show ?thesis using ulp_pos [of p emin x]
    by (simp add: round_real_def mult_le_0_iff)
qed

lemma ulp_divides:
  assumes "0 < x" and "exponent2 x \<le> int p - 1" and "emin \<le> int p - 1"
  shows "\<exists>d::nat. ulp p emin x = 1 / 2 ^ d"
proof -
  define s where "s = max (exponent2 x) emin - (int p - 1)"
  have "s \<le> 0" using assms(2,3) by (simp add: s_def)
  then have "(2::real) powi s = 1 / 2 ^ nat (- s)"
    by (cases "s = 0") (simp_all add: power_int_def field_simps)
  then show ?thesis using assms(1) by (auto simp: ulp_def s_def)
qed

text \<open>
  An integer of at most \<open>p\<close> bits that bounds a positive number bounds its rounded
  value too: rounding does not pass a number of the format.
\<close>

lemma round_real_le_int:
  assumes x: "0 < x" and le: "x \<le> of_int N" and N: "N \<le> 2 ^ p" and emin: "emin \<le> int p - 1"
    and p: "0 < p"
  shows "round_real p emin x \<le> of_int N"
proof (cases "exponent2 x \<le> int p - 1")
  case True
  from ulp_divides [OF x True emin] obtain d :: nat where d: "ulp p emin x = 1 / 2 ^ d" by blast
  have "x / ulp p emin x \<le> of_int (N * 2 ^ d)" using le by (simp add: d)
  then have "round_half_even (x / ulp p emin x) \<le> N * 2 ^ d" by (rule round_half_even_le)
  then have "of_int (round_half_even (x / ulp p emin x)) \<le> (of_int (N * 2 ^ d) :: real)"
    by (simp only: of_int_le_iff)
  then show ?thesis by (simp add: round_real_def d field_simps)
next
  case False
  then have "int p \<le> exponent2 x" by simp
  then have "(2::real) powi int p \<le> 2 powi exponent2 x"
    by (intro power_int_increasing) simp_all
  then have "(2::real) ^ p \<le> x" using exponent2_bounds(1) [OF x] by simp
  moreover have "x \<le> 2 ^ p"
  proof -
    have "(of_int N :: real) \<le> 2 ^ p" using N by (rule of_int_le_pow2)
    then show ?thesis using le by linarith
  qed
  ultimately have xe: "x = 2 ^ p" by simp
  have "2 powi int p \<le> x" "x < 2 powi (int p + 1)" by (simp_all add: xe powi_Suc)
  then have e: "exponent2 x = int p" by (rule exponent2_eqI)
  have u: "ulp p emin x = 2" using x emin by (simp add: ulp_def e max_def)
  have half: "x / 2 = of_int (2 ^ (p - 1))" using p by (cases p) (simp_all add: xe)
  then have "round_half_even (x / 2) = 2 ^ (p - 1)"
    by (simp add: round_half_even_def)
  then have "round_real p emin x = of_int (2 ^ (p - 1)) * 2"
    unfolding round_real_def u by simp
  also have "\<dots> = x" using half by simp
  finally have "round_real p emin x = x" .
  then show ?thesis using le by simp
qed

lemma round_real_ge_int:
  assumes x: "0 < x" and le: "of_int N \<le> x" and N: "N \<le> 2 ^ p" and emin: "emin \<le> int p - 1"
    and p: "0 < p"
  shows "of_int N \<le> round_real p emin x"
proof (cases "exponent2 x \<le> int p - 1")
  case True
  from ulp_divides [OF x True emin] obtain d :: nat where d: "ulp p emin x = 1 / 2 ^ d" by blast
  have "of_int (N * 2 ^ d) \<le> x / ulp p emin x" using le by (simp add: d)
  then have "N * 2 ^ d \<le> round_half_even (x / ulp p emin x)" by (rule round_half_even_ge)
  then have "(of_int (N * 2 ^ d) :: real) \<le> of_int (round_half_even (x / ulp p emin x))"
    by (simp only: of_int_le_iff)
  then show ?thesis by (simp add: round_real_def d field_simps)
next
  case False
  define e where "e = exponent2 x"
  have e: "int p \<le> e" using False by (simp add: e_def)
  then have u: "ulp p emin x = 2 powi (e - (int p - 1))"
    using x emin by (simp add: ulp_def e_def max_def)
  have "(2::real) powi e = 2 powi (int p - 1) * 2 powi (e - (int p - 1))"
    by (simp flip: power_int_add)
  then have "2 powi (int p - 1) * ulp p emin x \<le> x"
    using exponent2_bounds(1) [OF x] by (simp add: u e_def)
  then have "2 powi (int p - 1) \<le> x / ulp p emin x"
    using ulp_pos [of p emin x] by (simp add: pos_le_divide_eq)
  moreover have pw: "(2::real) powi (int p - 1) = of_int (2 ^ (p - 1))"
    using p by (cases p) (simp_all add: power_int_def)
  ultimately have "of_int (2 ^ (p - 1)) \<le> x / ulp p emin x" by simp
  then have "2 ^ (p - 1) \<le> round_half_even (x / ulp p emin x)" by (rule round_half_even_ge)
  then have "(of_int (2 ^ (p - 1)) :: real) \<le> of_int (round_half_even (x / ulp p emin x))"
    by (simp only: of_int_le_iff)
  then have "2 ^ (p - 1) * ulp p emin x \<le> round_real p emin x"
    using ulp_pos [of p emin x] by (simp add: round_real_def)
  moreover have "2 ^ (p - 1) * ulp p emin x = 2 powi e"
  proof -
    have "2 ^ (p - 1) * ulp p emin x = 2 powi (int p - 1) * 2 powi (e - (int p - 1))"
      using pw by (simp add: u)
    also have "\<dots> = 2 powi e" by (simp flip: power_int_add)
    finally show ?thesis .
  qed
  moreover have "(2::real) ^ p \<le> 2 powi e"
    using e power_int_increasing [of "int p" e "2::real"] by simp
  moreover have "(of_int N :: real) \<le> 2 ^ p"
    using N by (rule of_int_le_pow2)
  ultimately show ?thesis by linarith
qed

text \<open>
  Python floats: a positive product bounded by an integer of at most 53 bits is rounded
  to a finite float within the same bounds, and such an integer is a float.
\<close>

lemma round64_between:
  assumes "0 < x" and "of_int L \<le> x" and "x \<le> of_int N" and "N \<le> 2 ^ 53"
  shows "\<exists>r. round64 x = Finite r \<and> of_int L \<le> r \<and> r \<le> of_int N \<and> 0 \<le> r"
proof -
  define r where "r = round_real 53 (- 1022) x"
  have "L \<le> N" using assms(2,3) by linarith
  then have L: "L \<le> 2 ^ 53" using assms(4) by simp
  have up: "r \<le> of_int N"
    unfolding r_def using assms(1,3,4) by (intro round_real_le_int) simp_all
  have lo: "of_int L \<le> r"
    unfolding r_def using assms(1,2) L by (intro round_real_ge_int) simp_all
  have r0: "0 \<le> r" unfolding r_def using assms(1) by (intro round_real_nonneg) simp
  have "(of_int N :: real) \<le> 2 ^ 53" using assms(4) by (rule of_int_le_pow2)
  moreover have "(2::real) ^ 53 < 2 powi (1023 + 1)"
    by (simp only: power_int_of_nat [symmetric]) (rule power_int_strict_increasing, simp_all)
  ultimately have "r < 2 powi (1023 + 1)" using up by linarith
  moreover have "- (2 powi (1023 + 1)) < r"
  proof -
    have "(0::real) < 2 powi (1023 + 1)" by simp
    then show ?thesis using r0 by linarith
  qed
  ultimately have "round64 x = Finite r"
    using assms(1) by (simp add: round64_def round_to_def r_def Let_def)
  then show ?thesis using lo up r0 by blast
qed

lemma round64_int:
  assumes "0 \<le> N" and "N \<le> 2 ^ 53"
  shows "round64 (of_int N) = Finite (of_int N)"
proof (cases "N = 0")
  case True
  then show ?thesis by (simp add: round64_def round_to_def)
next
  case False
  then have "0 < (of_int N :: real)" using assms(1) by simp
  from round64_between [OF this order_refl order_refl assms(2)]
  show ?thesis by auto
qed

subsection \<open>Sampling without replacement\<close>

lemma pool_remove:
  assumes "distinct pool" and "j < length pool"
  shows "distinct (butlast (pool[j := last pool])) \<and>
         length (butlast (pool[j := last pool])) = length pool - 1 \<and>
         set (butlast (pool[j := last pool])) = set pool - {pool ! j}"
proof -
  from assms(2) obtain xs l where pool: "pool = xs @ [l]"
    by (cases pool rule: rev_cases) auto
  have l: "l \<notin> set xs" and d: "distinct xs" using assms(1) pool by auto
  show ?thesis
  proof (cases "j < length xs")
    case True
    then have upd: "butlast (pool[j := last pool]) = xs[j := l]"
      by (simp add: pool list_update_append)
    have "distinct (xs[j := l])"
      using d l by (simp add: distinct_list_update)
    moreover have "set (xs[j := l]) = insert l (set xs - {xs ! j})"
      using d True by (rule set_update_distinct)
    moreover have "xs ! j \<noteq> l" using True l by (metis nth_mem)
    ultimately show ?thesis
      using upd True l pool by (auto simp: nth_append)
  next
    case False
    then have j: "j = length xs" using assms(2) pool by simp
    then have "butlast (pool[j := last pool]) = xs"
      by (simp add: pool)
    then show ?thesis using d l pool j by auto
  qed
qed

lemma sample_from_distinct:
  assumes "k \<le> length pool" and "distinct pool"
  shows "length (fst (sample_from k g pool)) = k \<and>
         distinct (fst (sample_from k g pool)) \<and>
         set (fst (sample_from k g pool)) \<subseteq> set pool"
  using assms
proof (induction k arbitrary: g pool)
  case 0
  then show ?case by simp
next
  case (Suc k)
  define j where "j = g 0 mod length pool"
  define g' where "g' = (\<lambda>i. g (Suc i))"
  define pool' where "pool' = butlast (pool[j := last pool])"
  have "0 < length pool" using Suc.prems(1) by linarith
  then have j: "j < length pool" by (simp add: j_def)
  from pool_remove [OF Suc.prems(2) j]
  have p: "distinct pool'" "length pool' = length pool - 1" "set pool' = set pool - {pool ! j}"
    by (simp_all add: pool'_def)
  have "k \<le> length pool'" using p(2) Suc.prems(1) by simp
  from Suc.IH [OF this p(1), of g']
  have ih: "length (fst (sample_from k g' pool')) = k"
    "distinct (fst (sample_from k g' pool'))"
    "set (fst (sample_from k g' pool')) \<subseteq> set pool'"
    by simp_all
  have step: "fst (sample_from (Suc k) g pool) = pool ! j # fst (sample_from k g' pool')"
    by (simp add: randbelow_def j_def g'_def pool'_def split: prod.splits)
  show ?case
    unfolding step using ih p(3) j by auto
qed

subsection \<open>Shuffling and chunking\<close>

lemma shuffle_from_mset:
  "i < length x \<Longrightarrow> mset (fst (shuffle_from i g x)) = mset x"
proof (induction i arbitrary: g x)
  case 0
  then show ?case by simp
next
  case (Suc i)
  define j where "j = g 0 mod (Suc i + 1)"
  define x' where "x' = x[Suc i := x ! j, j := x ! Suc i]"
  have j: "j < length x" using Suc.prems by (simp add: j_def) (metis Suc_lessI less_Suc_eq mod_less_divisor not_less_eq zero_less_Suc less_trans)
  have "mset x' = mset x"
    unfolding x'_def using j Suc.prems by (rule mset_swap)
  moreover have "i < length x'" using Suc.prems by (simp add: x'_def)
  ultimately have "mset (fst (shuffle_from i (\<lambda>i. g (Suc i)) x')) = mset x"
    using Suc.IH by metis
  then show ?case by (simp add: randbelow_def j_def x'_def)
qed

lemma shuffle_mset: "mset (fst (shuffle g x)) = mset x"
proof (cases x)
  case Nil
  then show ?thesis by (simp add: shuffle_def)
next
  case (Cons a xs)
  then have "length x - 1 < length x" by simp
  then show ?thesis unfolding shuffle_def by (rule shuffle_from_mset)
qed

lemma shuffle_length: "length (fst (shuffle g x)) = length x"
  using shuffle_mset [of g x] by (metis size_mset)

lemma concat_chunks:
  "concat (map (\<lambda>i. take c (drop (i * c) xs)) [0..<m]) = take (m * c) xs"
proof (induction m)
  case 0
  then show ?case by simp
next
  case (Suc m)
  have "take (m * c) xs @ take c (drop (m * c) xs) = take (m * c + c) xs"
    by (simp add: take_add)
  then show ?case using Suc by (simp add: add.commute)
qed

lemma iid_shards_nat:
  assumes "0 < n"
  shows "iid_shards indices d (int n) =
           map (\<lambda>i. slice indices (i * (d div n)) (if i + 1 < n then (i + 1) * (d div n) else d))
             [0..<n]"
proof -
  have c: "int d div int n = int (d div n)" by (simp add: zdiv_int)
  have "nat (int i * int (d div n)) = i * (d div n)" for i
    by (metis nat_int of_nat_mult)
  moreover have "nat ((int i + 1) * int (d div n)) = (i + 1) * (d div n)" for i
    by (metis nat_int of_nat_mult of_nat_Suc Suc_eq_plus1 of_nat_add of_nat_1)
  moreover have "(int i < int n - 1) = (i + 1 < n)" for i by auto
  ultimately show ?thesis
    unfolding iid_shards_def Let_def c by (simp del: of_nat_mult of_nat_add)
qed

lemma iid_shards_split:
  assumes "0 < n"
  shows "iid_shards indices d (int n) =
           map (\<lambda>i. take (d div n) (drop (i * (d div n)) indices)) [0..<n - 1]
           @ [slice indices ((n - 1) * (d div n)) d]"
proof -
  obtain m where n: "n = Suc m" using assms by (cases n) auto
  have "map (\<lambda>i. slice indices (i * (d div n)) (if i + 1 < n then (i + 1) * (d div n) else d)) [0..<m]
        = map (\<lambda>i. take (d div n) (drop (i * (d div n)) indices)) [0..<m]"
    by (rule map_cong) (auto simp: slice_def n)
  then show ?thesis
    unfolding iid_shards_nat [OF assms] by (simp add: n)
qed

lemma iid_shards_partition:
  assumes "0 < n" and "length indices = d"
  shows "concat (iid_shards indices d (int n)) = indices"
    and "length (iid_shards indices d (int n)) = n"
    and "\<forall>i<n - 1. length (iid_shards indices d (int n) ! i) = d div n"
    and "length (iid_shards indices d (int n) ! (n - 1)) = d div n + d mod n"
proof -
  define c where "c = d div n"
  have le: "(n - 1) * c \<le> d"
  proof -
    have "(n - 1) * c \<le> n * c" by (simp add: mult_le_mono1)
    also have "\<dots> \<le> d" by (simp add: c_def)
    finally show ?thesis .
  qed
  have last: "slice indices ((n - 1) * c) d = drop ((n - 1) * c) indices"
    using assms(2) by (simp add: slice_def)
  show "concat (iid_shards indices d (int n)) = indices"
    unfolding iid_shards_split [OF assms(1)]
    using last by (simp add: concat_chunks c_def [symmetric])
  show "length (iid_shards indices d (int n)) = n"
    unfolding iid_shards_split [OF assms(1)] using assms(1) by simp
  show "\<forall>i<n - 1. length (iid_shards indices d (int n) ! i) = d div n"
  proof (intro allI impI)
    fix i assume i: "i < n - 1"
    have "i + 1 \<le> n - 1" using i by simp
    then have "(i + 1) * c \<le> (n - 1) * c" by (rule mult_le_mono1)
    then have "i * c + c \<le> d" using le by (simp add: algebra_simps)
    then have "length (take c (drop (i * c) indices)) = c"
      using assms(2) by simp
    then show "length (iid_shards indices d (int n) ! i) = d div n"
      unfolding iid_shards_split [OF assms(1)] using i
      by (simp add: nth_append c_def)
  qed
  have "d = n * c + d mod n" by (simp add: c_def)
  then have "d - (n - 1) * c = c + d mod n"
    using assms(1) le by (cases n) (auto simp: algebra_simps)
  then show "length (iid_shards indices d (int n) ! (n - 1)) = d div n + d mod n"
    unfolding iid_shards_split [OF assms(1)] using last assms(2)
    by (simp add: nth_append c_def)
qed

lemma subset_examples_all:
  assumes "mset (concat shards) = mset [0..<length dataset]"
  shows "mset (concat (map (subset_examples dataset) shards)) = mset dataset"
proof -
  have "concat (map (subset_examples dataset) shards) = map (\<lambda>i. dataset ! i) (concat shards)"
    by (simp add: map_concat) (simp add: subset_examples_def [abs_def])
  then have "mset (concat (map (subset_examples dataset) shards))
      = image_mset (\<lambda>i. dataset ! i) (mset (concat shards))"
    by simp
  also have "\<dots> = mset (map (\<lambda>i. dataset ! i) [0..<length dataset])"
    using assms by simp
  also have "\<dots> = mset dataset" by (simp add: map_nth)
  finally show ?thesis .
qed

subsection \<open>Values of the rounding\<close>

text \<open>
  The roundings the concrete inputs need, each from the binary exponent of its argument.
\<close>

lemma round32_0: "round32 0 = Finite 0"
  by (simp add: round32_def round_to_def)

lemma round64_0: "round64 0 = Finite 0"
  by (simp add: round64_def round_to_def)

lemma round32_1: "round32 (1) = Finite (1)"
  using round_to_eval [of 0 "1" 24 "- 126" 127]
  by (simp add: round32_def round_half_even_def Let_def power_int_minus)

lemma round32_2: "round32 (2) = Finite (2)"
  using round_to_eval [of 1 "2" 24 "- 126" 127]
  by (simp add: round32_def round_half_even_def Let_def power_int_minus)

lemma round32_3: "round32 (3) = Finite (3)"
  using round_to_eval [of 1 "3" 24 "- 126" 127]
  by (simp add: round32_def round_half_even_def Let_def power_int_minus)

lemma round32_4: "round32 (4) = Finite (4)"
  using round_to_eval [of 2 "4" 24 "- 126" 127]
  by (simp add: round32_def round_half_even_def Let_def power_int_minus)

lemma round32_6: "round32 (6) = Finite (6)"
  using round_to_eval [of 2 "6" 24 "- 126" 127]
  by (simp add: round32_def round_half_even_def Let_def power_int_minus)

lemma round32_half: "round32 (1 / 2) = Finite (1 / 2)"
  using round_to_eval [of "- 1" "1 / 2" 24 "- 126" 127]
  by (simp add: round32_def round_half_even_def Let_def power_int_minus)

lemma round64_1: "round64 (1) = Finite (1)"
  using round_to_eval [of 0 "1" 53 "- 1022" 1023]
  by (simp add: round64_def round_half_even_def Let_def power_int_minus)

lemma round64_half: "round64 (1 / 2) = Finite (1 / 2)"
  using round_to_eval [of "- 1" "1 / 2" 53 "- 1022" 1023]
  by (simp add: round64_def round_half_even_def Let_def power_int_minus)













lemma round64_5: "round64 (5) = Finite (5)"
  using round_to_eval [of 2 "5" 53 "- 1022" 1023]
  by (simp add: round64_def round_half_even_def Let_def power_int_minus)

lemma round64_6: "round64 (6) = Finite (6)"
  using round_to_eval [of 2 "6" 53 "- 1022" 1023]
  by (simp add: round64_def round_half_even_def Let_def power_int_minus)

lemma round64_m5: "round64 (- 5) = Finite (- 5)"
  using round_to_eval [of 2 "- 5" 53 "- 1022" 1023]
  by (simp add: round64_def round_half_even_def Let_def power_int_minus)

lemma round64_45_8: "round64 (45 / 8) = Finite (45 / 8)"
  using round_to_eval [of 2 "45 / 8" 53 "- 1022" 1023]
  by (simp add: round64_def round_half_even_def Let_def power_int_minus)

lemma round64_six_thirds: "round64 (18014398509481983 / 9007199254740992) = Finite (2)"
  using round_to_eval [of 0 "18014398509481983 / 9007199254740992" 53 "- 1022" 1023]
  by (simp add: round64_def round_half_even_def Let_def power_int_minus)

lemma round64_many: "round64 (9007199254740995) = Finite (9007199254740996)"
  using round_to_eval [of 53 "9007199254740995" 53 "- 1022" 1023]
  by (simp add: round64_def round_half_even_def Let_def power_int_minus)

lemma round64_many_even: "round64 (9007199254740996) = Finite (9007199254740996)"
  using round_to_eval [of 53 "9007199254740996" 53 "- 1022" 1023]
  by (simp add: round64_def round_half_even_def Let_def power_int_minus)

lemma round64_overflow: "round64 (- (5 * 2 ^ 1023)) = NegInf"
  using round_to_eval [of 1025 "- (5 * 2 ^ 1023)" 53 "- 1022" 1023]
  by (simp add: round64_def round_half_even_def Let_def power_int_minus)

lemma round64_m1: "round64 (- 1) = Finite (- 1)"
  using round_to_eval [of 0 "- 1" 53 "- 1022" 1023]
  by (simp add: round64_def round_half_even_def Let_def power_int_minus)

lemmas small_rounds = round32_0 round32_1 round32_2 round32_3 round32_4 round32_6 round32_half
  round64_0 round64_1 round64_half

lemmas ev = aggregate_models_def deepcopy_def tensor_mul_def tensor_add_def
  load_state_dict_def Let_def tensor_of_def float32_def default_weight_def

subsection \<open>The uniform weighted sum when no operation rounds\<close>





subsection \<open>Selection\<close>

lemma sample_value_error: "int (length pop) < k \<Longrightarrow> sample g pop k = (Inl ValueError, g)"
  by (simp add: sample_def)

lemma sample_ok:
  assumes "0 \<le> k" and "k \<le> int (length pop)" and "distinct pop"
  shows "\<exists>ids g'. sample g pop k = (Inr ids, g') \<and> int (length ids) = k \<and> distinct ids \<and>
           set ids \<subseteq> set pop"
proof -
  have "nat k \<le> length pop" using assms(1,2) by simp
  from sample_from_distinct [OF this assms(3), of g]
  have "length (fst (sample_from (nat k) g pop)) = nat k"
    "distinct (fst (sample_from (nat k) g pop))"
    "set (fst (sample_from (nat k) g pop)) \<subseteq> set pop"
    by simp_all
  moreover have "sample g pop k = (Inr (fst (sample_from (nat k) g pop)), snd (sample_from (nat k) g pop))"
    using assms(1,2) by (simp add: sample_def split: prod.splits)
  ultimately show ?thesis using assms(1) by auto
qed

lemma select_clients_sample:
  assumes "int_times_float (num_clients srv) (client_fraction srv) = Inr p"
    and "py_int p = Inr k" and "num_clients srv \<le> ssize_max"
  shows "select_clients srv g = sample g [0..<nat (num_clients srv)] (max 1 k)"
  using assms by (simp add: select_clients_def)

lemma select_clients_int_error:
  assumes "int_times_float (num_clients srv) (client_fraction srv) = Inr p"
    and "py_int p = Inl e"
  shows "select_clients srv g = (Inl e, g)"
  using assms by (simp add: select_clients_def)

lemma to_float_small:
  assumes "0 \<le> n" and "n \<le> 2 ^ 53"
  shows "to_float n = Inr (Finite (of_int n))"
  using round64_int [OF assms] by (simp add: to_float_def)

lemma small_ssize: "n \<le> 2 ^ 53 \<Longrightarrow> n \<le> ssize_max"
  by (simp add: ssize_max_def)

text \<open>
  Within \<open>2^53\<close> clients: what is selected when \<open>int\<close> of the product is \<open>k\<close>.
\<close>

lemma select_clients_cases:
  assumes n: "1 \<le> num_clients srv" "num_clients srv \<le> 2 ^ 53"
    and k: "py_int (fl_mul round64 (Finite (of_int (num_clients srv))) (client_fraction srv)) = Inr k"
  shows "num_clients srv < k \<longrightarrow> select_clients srv g = (Inl ValueError, g)"
    and "k \<le> num_clients srv \<longrightarrow>
           (\<exists>ids g'. select_clients srv g = (Inr ids, g') \<and> int (length ids) = max 1 k \<and>
              distinct ids \<and> set ids \<subseteq> {0..<nat (num_clients srv)})"
proof -
  have tf: "int_times_float (num_clients srv) (client_fraction srv)
      = Inr (fl_mul round64 (Finite (of_int (num_clients srv))) (client_fraction srv))"
    using to_float_small [of "num_clients srv"] n by (simp add: int_times_float_def)
  have sel: "select_clients srv g = sample g [0..<nat (num_clients srv)] (max 1 k)"
    using tf k small_ssize [OF n(2)] by (rule select_clients_sample)
  show "num_clients srv < k \<longrightarrow> select_clients srv g = (Inl ValueError, g)"
  proof
    assume "num_clients srv < k"
    then have "int (length [0..<nat (num_clients srv)]) < max 1 k" using n(1) by simp
    then show "select_clients srv g = (Inl ValueError, g)"
      unfolding sel by (rule sample_value_error)
  qed
  show "k \<le> num_clients srv \<longrightarrow>
           (\<exists>ids g'. select_clients srv g = (Inr ids, g') \<and> int (length ids) = max 1 k \<and>
              distinct ids \<and> set ids \<subseteq> {0..<nat (num_clients srv)})"
  proof
    assume "k \<le> num_clients srv"
    then have "max 1 k \<le> int (length [0..<nat (num_clients srv)])" using n(1) by simp
    moreover have "0 \<le> max 1 k" by simp
    ultimately have "\<exists>ids g'. sample g [0..<nat (num_clients srv)] (max 1 k) = (Inr ids, g') \<and>
        int (length ids) = max 1 k \<and> distinct ids \<and> set ids \<subseteq> set [0..<nat (num_clients srv)]"
      using distinct_upt by (intro sample_ok)
    then show "\<exists>ids g'. select_clients srv g = (Inr ids, g') \<and> int (length ids) = max 1 k \<and>
              distinct ids \<and> set ids \<subseteq> {0..<nat (num_clients srv)}"
      unfolding sel by simp
  qed
qed

text \<open>
  A fraction in \<open>(0, 1]\<close>: the float product is finite and lies between the floor and
  the ceiling of the exact product.
\<close>

lemma product_in_unit:
  assumes n: "1 \<le> n" "n \<le> 2 ^ 53" and f: "0 < f" "f \<le> 1"
  shows "\<exists>x. round64 (of_int n * f) = Finite x \<and> of_int \<lfloor>of_int n * f\<rfloor> \<le> x \<and>
           x \<le> of_int \<lceil>of_int n * f\<rceil> \<and> 0 \<le> x \<and> \<lfloor>x\<rfloor> \<le> n"
proof -
  define y where "y = real_of_int n * f"
  have y0: "0 < y" using n(1) f(1) by (simp add: y_def)
  have "y \<le> of_int n" using n(1) f(2) by (simp add: y_def mult_left_le)
  then have c: "\<lceil>y\<rceil> \<le> n" by (simp add: ceiling_le_iff)
  have c53: "\<lceil>y\<rceil> \<le> 2 ^ 53" using c n(2) by (rule order_trans)
  from round64_between [OF y0 of_int_floor_le le_of_int_ceiling c53]
  obtain x where x: "round64 y = Finite x" "of_int \<lfloor>y\<rfloor> \<le> x" "x \<le> of_int \<lceil>y\<rceil>" "0 \<le> x"
    by blast
  have "\<lfloor>x\<rfloor> \<le> \<lceil>y\<rceil>" using x(3) by linarith
  then have "\<lfloor>x\<rfloor> \<le> n" using c by simp
  then show ?thesis using x unfolding y_def by blast
qed

lemma round64_nonpos:
  assumes "x \<le> 0"
  shows "round64 x = NegInf \<or> (\<exists>r. round64 x = Finite r \<and> r \<le> 0)"
proof (cases "x = 0")
  case True
  then show ?thesis by (simp add: round64_def round_to_def)
next
  case False
  have r: "round_real 53 (- 1022) x \<le> 0" using assms by (rule round_real_nonpos)
  have "(0::real) < 2 powi (1023 + 1)" by simp
  then have "\<not> 2 powi (1023 + 1) \<le> round_real 53 (- 1022) x" using r by linarith
  then show ?thesis using False r by (auto simp: round64_def round_to_def Let_def)
qed

lemma select_clients_eval:
  assumes "round64 (of_int (num_clients srv)) = Finite a"
    and "client_fraction srv = Finite f"
    and "round64 (a * f) = Finite x"
    and "num_clients srv \<le> ssize_max"
  shows "select_clients srv g =
           sample g [0..<nat (num_clients srv)] (max 1 (if 0 \<le> x then \<lfloor>x\<rfloor> else \<lceil>x\<rceil>))"
  using assms by (simp add: select_clients_def int_times_float_def to_float_def py_int_def)

lemma sample_five_one: "fst (sample zero_gen [0..<5] 1) = Inr [0]"
  by code_simp

lemma sample_five_five: "fst (sample zero_gen [0..<5] 5) = Inr [0, 4, 3, 2, 1]"
  by code_simp

lemma sample_six_two: "fst (sample zero_gen [0..<6] 2) = Inr [0, 5]"
  by code_simp

subsection \<open>Labels\<close>







lemma seven_examples_length: "length seven_examples = 7"
  by (simp add: seven_examples_def int_labelled_def seven_raw_def)

subsection \<open>Division by zero\<close>

lemma float_div_zero: "float_div_int x 0 = Inl ZeroDivisionError"
  by (simp add: float_div_int_def to_float_def round64_0)

section \<open>The claims\<close>

subsection \<open>Aggregation\<close>







text \<open>
  Claim C4, as amended. When \<open>aggregate_models\<close> fails with any exception other than the
  \<open>RuntimeError\<close> of \<open>load_state_dict\<close> (the update list is empty, an update lacks a
  key of the first one, or the tensors of a key cannot be added), the whole heap, and with
  it the global model, is as it was before the call.
\<close>

theorem failure_before_load_keeps_heap:
  assumes "aggregate_models D srv h ups ws = (Inl e, h')"
    and "e \<noteq> RuntimeError LoadStateDict"
  shows "h' = h"
proof (cases ups)
  case Nil
  then show ?thesis using assms(1) by (simp add: aggregate_models_def)
next
  case (Cons first rest)
  show ?thesis
    using assms Cons
    by (auto simp: aggregate_models_def Let_def split: sum.splits prod.splits
        dest: load_state_dict_error)
qed

text \<open>
  Two updates whose tensors for \<open>b\<close> have two and three entries: the sum raises
  \<open>RuntimeError\<close> and the heap is unchanged.
\<close>

theorem failure_before_load_keeps_heap_witness:
  "aggregate_models float32 ab_server ab_heap b_updates None
     = (Inl (RuntimeError TensorAdd), ab_heap)"
proof -
  have run: "aggregate_models float32 ab_server ab_heap b_updates None
      = (Inl (RuntimeError TensorAdd), snd (aggregate_models float32 ab_server ab_heap b_updates None))"
    by (simp add: aggregate_models_def ab_server_def ab_heap_def b_updates_def deepcopy_def
        tensor_mul_def tensor_add_def Let_def)
  have "snd (aggregate_models float32 ab_server ab_heap b_updates None) = ab_heap"
    using failure_before_load_keeps_heap [OF run] by simp
  then show ?thesis using run by simp
qed

text \<open>
  Claim C4 as stated fails when \<open>load_state_dict\<close> raises: the update matches the
  global model on \<open>a\<close> and not on the shape of \<open>b\<close>; the call fails, and the parameter
  \<open>a\<close> (address 0), \<open>[0.0]\<close> before the call, is \<open>[1.0]\<close> after it.
\<close>

theorem load_failure_counterexample:
  "fst (aggregate_models float32 ab_server ab_heap ab_updates None) = Inl (RuntimeError LoadStateDict)
   \<and> ab_heap 0 = [Finite 0]
   \<and> snd (aggregate_models float32 ab_server ab_heap ab_updates None) 0 = [Finite 1]"
  by (simp add: ev ab_server_def ab_heap_def ab_updates_def small_rounds)

text \<open>
  Claim C10, as amended. \<open>aggregate_models\<close> writes to the parameters of the global
  model only: when no tensor of a client update shares its storage with a parameter of the
  global model, every tensor of every client update is the same after the call as before
  it, whether the call returns or fails, and whatever the weights.
\<close>

theorem updates_not_written:
  assumes "\<forall>u\<in>set ups. \<forall>(k, a)\<in>set u. a \<notin> snd ` set (global_model srv)"
  shows "\<forall>u\<in>set ups. \<forall>(k, a)\<in>set u. snd (aggregate_models D srv h ups ws) a = h a"
proof (intro ballI, clarify)
  fix u k a
  assume "u \<in> set ups" and "(k, a) \<in> set u"
  then have "a \<notin> snd ` set (global_model srv)" using assms by fast
  then show "snd (aggregate_models D srv h ups ws) a = h a"
    by (rule aggregate_models_frame)
qed

text \<open>
  The updates at addresses 1 and 2, the global parameter at address 0: both updates are
  unchanged after a call that overwrites the parameter.
\<close>

theorem updates_not_written_witness:
  "snd (aggregate_models float32 w_server w_heap w_updates (Some [Finite 1, Finite 1])) 1 = [Finite 2]
   \<and> snd (aggregate_models float32 w_server w_heap w_updates (Some [Finite 1, Finite 1])) 2 = [Finite 4]"
proof -
  have "\<forall>u\<in>set w_updates. \<forall>(k, a)\<in>set u. a \<notin> snd ` set (global_model w_server)"
    by (simp add: w_updates_def w_server_def)
  from updates_not_written [OF this, of float32 w_heap "Some [Finite 1, Finite 1]"]
  show ?thesis by (simp add: w_updates_def w_heap_def)
qed

text \<open>
  Claim C10 as stated fails for an update that is the state dict of the global model
  itself: its tensor \<open>w\<close> is \<open>[0.0]\<close> before the call and \<open>[2.0]\<close>, the mean of
  \<open>0.0\<close> and \<open>4.0\<close>, after it.
\<close>

theorem aliased_update_counterexample:
  "fst (aggregate_models float32 w_server w_heap aliased_updates None) = Inr (global_model w_server)
   \<and> tensor_of w_heap (aliased_updates ! 0) ''w'' = [Finite 0]
   \<and> tensor_of (snd (aggregate_models float32 w_server w_heap aliased_updates None))
        (aliased_updates ! 0) ''w'' = [Finite 2]"
  by (simp add: ev w_server_def w_heap_def aliased_updates_def small_rounds numeral_2_eq_2)

subsection \<open>Client selection\<close>

text \<open>
  Claim C5, as amended. For \<open>1 <= num_clients <= 2^53\<close> and a float fraction \<open>f\<close> in
  \<open>(0, 1]\<close>, the float product \<open>num_clients * f\<close> is a finite float \<open>x\<close> between the
  floor and the ceiling of the exact product, and \<open>select_clients\<close> returns a non-empty
  list of distinct client ids, of length \<open>max(1, floor(x))\<close>, all in
  \<open>{0, ..., num_clients - 1}\<close>; the length is \<open>max(1, floor(num_clients * f))\<close> or
  \<open>max(1, ceil(num_clients * f))\<close> of the exact product.
\<close>

theorem select_clients_size:
  assumes "1 \<le> num_clients srv" and "num_clients srv \<le> 2 ^ 53"
    and "client_fraction srv = Finite f" and "0 < f" and "f \<le> 1"
  shows "\<exists>ids g' x.
           int_times_float (num_clients srv) (client_fraction srv) = Inr (Finite x) \<and>
           of_int \<lfloor>of_int (num_clients srv) * f\<rfloor> \<le> x \<and>
           x \<le> of_int \<lceil>of_int (num_clients srv) * f\<rceil> \<and>
           select_clients srv g = (Inr ids, g') \<and>
           ids \<noteq> [] \<and> distinct ids \<and>
           int (length ids) = max 1 \<lfloor>x\<rfloor> \<and>
           (int (length ids) = max 1 \<lfloor>of_int (num_clients srv) * f\<rfloor> \<or>
            int (length ids) = max 1 \<lceil>of_int (num_clients srv) * f\<rceil>) \<and>
           set ids \<subseteq> {0..<nat (num_clients srv)}"
proof -
  from product_in_unit [OF assms(1,2,4,5)]
  obtain x where x: "round64 (of_int (num_clients srv) * f) = Finite x"
    "of_int \<lfloor>of_int (num_clients srv) * f\<rfloor> \<le> x"
    "x \<le> of_int \<lceil>of_int (num_clients srv) * f\<rceil>" "0 \<le> x" "\<lfloor>x\<rfloor> \<le> num_clients srv"
    by blast
  have p: "fl_mul round64 (Finite (of_int (num_clients srv))) (client_fraction srv) = Finite x"
    using x(1) assms(3) by simp
  have tf: "int_times_float (num_clients srv) (client_fraction srv) = Inr (Finite x)"
    using to_float_small [of "num_clients srv"] assms(1,2) p by (simp add: int_times_float_def)
  have k: "py_int (fl_mul round64 (Finite (of_int (num_clients srv))) (client_fraction srv)) = Inr \<lfloor>x\<rfloor>"
    using p x(4) by (simp add: py_int_def)
  from select_clients_cases(2) [OF assms(1,2) k, of g] x(5)
  obtain ids g' where ids: "select_clients srv g = (Inr ids, g')" "int (length ids) = max 1 \<lfloor>x\<rfloor>"
    "distinct ids" "set ids \<subseteq> {0..<nat (num_clients srv)}"
    by blast
  have ne: "ids \<noteq> []" using ids(2) by auto
  have "\<lfloor>of_int (num_clients srv) * f\<rfloor> \<le> \<lfloor>x\<rfloor>"
    using x(2) by (simp add: le_floor_iff)
  moreover have "\<lfloor>x\<rfloor> \<le> \<lceil>of_int (num_clients srv) * f\<rceil>"
    using x(3) by linarith
  moreover have "\<lceil>of_int (num_clients srv) * f\<rceil> \<le> \<lfloor>of_int (num_clients srv) * f\<rfloor> + 1"
    by linarith
  ultimately have "\<lfloor>x\<rfloor> = \<lfloor>of_int (num_clients srv) * f\<rfloor> \<or>
      \<lfloor>x\<rfloor> = \<lceil>of_int (num_clients srv) * f\<rceil>"
    by linarith
  then have "int (length ids) = max 1 \<lfloor>of_int (num_clients srv) * f\<rfloor> \<or>
      int (length ids) = max 1 \<lceil>of_int (num_clients srv) * f\<rceil>"
    using ids(2) by auto
  then show ?thesis using tf x(2,3) ids ne by blast
qed

text \<open>
  Five clients and the fraction \<open>0.2\<close>: one client is selected.
\<close>

theorem select_clients_size_witness:
  "1 \<le> num_clients (five_clients (Finite float_fifth))
   \<and> num_clients (five_clients (Finite float_fifth)) \<le> 2 ^ 53
   \<and> client_fraction (five_clients (Finite float_fifth)) = Finite float_fifth
   \<and> 0 < float_fifth \<and> float_fifth \<le> 1
   \<and> (\<exists>ids g' x.
         int_times_float 5 (Finite float_fifth) = Inr (Finite x)
         \<and> of_int \<lfloor>5 * float_fifth\<rfloor> \<le> x \<and> x \<le> of_int \<lceil>5 * float_fifth\<rceil>
         \<and> select_clients (five_clients (Finite float_fifth)) zero_gen = (Inr ids, g')
         \<and> ids \<noteq> [] \<and> distinct ids \<and> int (length ids) = max 1 \<lfloor>x\<rfloor>
         \<and> (int (length ids) = max 1 \<lfloor>5 * float_fifth\<rfloor>
              \<or> int (length ids) = max 1 \<lceil>5 * float_fifth\<rceil>)
         \<and> set ids \<subseteq> {0..<5})"
proof -
  have h: "1 \<le> num_clients (five_clients (Finite float_fifth))"
    "num_clients (five_clients (Finite float_fifth)) \<le> 2 ^ 53"
    "client_fraction (five_clients (Finite float_fifth)) = Finite float_fifth"
    "0 < float_fifth" "float_fifth \<le> 1"
    by (simp_all add: five_clients_def float_fifth_def)
  from select_clients_size [OF h, of zero_gen]
  show ?thesis using h by (simp add: five_clients_def)
qed

text \<open>
  Claim C5 as stated fails where the float product rounds. Six clients and the fraction
  \<open>1/3\<close>, a float below one third: the float product is \<open>2.0\<close> and two clients are
  selected, where the floor of the exact product gives one. And \<open>2^53 + 3\<close> clients with
  the fraction \<open>1.0\<close>: the number of clients becomes the float \<open>2^53 + 4\<close>, and
  \<open>random.sample\<close> raises \<open>ValueError\<close>.
\<close>

theorem select_clients_rounding_counterexample:
  "fst (select_clients six_clients zero_gen) = Inr [0, 5]
   \<and> max 1 \<lfloor>6 * float_third\<rfloor> = (1::int)
   \<and> fst (select_clients many_clients zero_gen) = Inl ValueError"
proof -
  have "select_clients six_clients zero_gen = sample zero_gen [0..<nat (num_clients six_clients)]
      (max 1 (if 0 \<le> (2::real) then \<lfloor>2::real\<rfloor> else \<lceil>2::real\<rceil>))"
    by (rule select_clients_eval [where a = 6 and f = float_third])
      (simp_all add: six_clients_def round64_6 float_third_def round64_six_thirds ssize_max_def)
  then have a: "fst (select_clients six_clients zero_gen) = Inr [0, 5]"
    using sample_six_two by (simp add: six_clients_def)
  have b: "max 1 \<lfloor>6 * float_third\<rfloor> = (1::int)"
    by (simp add: float_third_def)
  have "select_clients many_clients zero_gen = sample zero_gen [0..<nat (num_clients many_clients)]
      (max 1 (if 0 \<le> (9007199254740996::real) then \<lfloor>9007199254740996::real\<rfloor>
              else \<lceil>9007199254740996::real\<rceil>))"
    by (rule select_clients_eval [where a = 9007199254740996 and f = 1])
      (simp_all add: many_clients_def round64_many round64_many_even ssize_max_def)
  moreover have "sample zero_gen [0..<nat (num_clients many_clients)] 9007199254740996
      = (Inl ValueError, zero_gen)"
    by (rule sample_value_error) (simp add: many_clients_def)
  ultimately have c: "fst (select_clients many_clients zero_gen) = Inl ValueError"
    by simp
  from a b c show ?thesis by simp
qed

text \<open>
  Claim C7, as amended. \<open>select_clients\<close> does not check the fraction. With
  \<open>1 <= num_clients <= 2^53\<close> the float product \<open>p\<close> of \<open>num_clients\<close> and the
  fraction exists, and: an exception of \<open>int(p)\<close> is the exception of the call; when
  \<open>int(p)\<close> is \<open>k\<close>, the call raises the \<open>ValueError\<close> of \<open>random.sample\<close> if
  \<open>k\<close> exceeds \<open>num_clients\<close> and returns \<open>max(1, k)\<close> distinct client ids
  otherwise, also for a fraction above 1. A NaN fraction raises \<open>ValueError\<close> and an
  infinite one \<open>OverflowError\<close>, both from \<open>int\<close>; a fraction \<open><= 0\<close> gives one
  client id, or \<open>OverflowError\<close> when the product overflows; no fraction \<open><= 1\<close>
  raises \<open>ValueError\<close>.
\<close>

theorem select_clients_unchecked:
  assumes "1 \<le> num_clients srv" and "num_clients srv \<le> 2 ^ 53"
  shows "(\<exists>p. int_times_float (num_clients srv) (client_fraction srv) = Inr p \<and>
            (\<forall>e. py_int p = Inl e \<longrightarrow> fst (select_clients srv g) = Inl e) \<and>
            (\<forall>k. py_int p = Inr k \<longrightarrow>
               (num_clients srv < k \<longrightarrow> fst (select_clients srv g) = Inl ValueError) \<and>
               (k \<le> num_clients srv \<longrightarrow>
                  (\<exists>ids. fst (select_clients srv g) = Inr ids \<and> int (length ids) = max 1 k \<and>
                     distinct ids \<and> set ids \<subseteq> {0..<nat (num_clients srv)})))) \<and>
         (client_fraction srv = NaN \<longrightarrow> fst (select_clients srv g) = Inl ValueError) \<and>
         (client_fraction srv = PosInf \<or> client_fraction srv = NegInf \<longrightarrow>
            fst (select_clients srv g) = Inl OverflowError) \<and>
         (\<forall>f. client_fraction srv = Finite f \<and> f \<le> 0 \<longrightarrow>
            fst (select_clients srv g) = Inl OverflowError \<or>
            (\<exists>ids. fst (select_clients srv g) = Inr ids \<and> length ids = 1)) \<and>
         (\<forall>f. client_fraction srv = Finite f \<and> f \<le> 1 \<longrightarrow>
            fst (select_clients srv g) \<noteq> Inl ValueError)"
proof -
  define n where "n = num_clients srv"
  define p where "p = fl_mul round64 (Finite (of_int n)) (client_fraction srv)"
  have n: "1 \<le> n" "n \<le> 2 ^ 53" using assms by (simp_all add: n_def)
  have n0: "(0::real) < of_int n" using n(1) by simp
  have tf: "int_times_float (num_clients srv) (client_fraction srv) = Inr p"
    using to_float_small [of n] n by (simp add: int_times_float_def p_def n_def)
  have err: "fst (select_clients srv g) = Inl e" if "py_int p = Inl e" for e
    using select_clients_int_error [OF tf that, of g] by simp
  have high: "fst (select_clients srv g) = Inl ValueError" if "py_int p = Inr k" "num_clients srv < k" for k
    using select_clients_cases(1) [OF assms, of k g] that by (simp add: p_def n_def)
  have low: "\<exists>ids. fst (select_clients srv g) = Inr ids \<and> int (length ids) = max 1 k \<and>
      distinct ids \<and> set ids \<subseteq> {0..<nat (num_clients srv)}"
    if "py_int p = Inr k" "k \<le> num_clients srv" for k
  proof -
    from select_clients_cases(2) [OF assms, of k g] that
    obtain ids g' where "select_clients srv g = (Inr ids, g')" "int (length ids) = max 1 k"
      "distinct ids" "set ids \<subseteq> {0..<nat (num_clients srv)}"
      by (auto simp: p_def n_def)
    then show ?thesis by auto
  qed
  have nan: "fst (select_clients srv g) = Inl ValueError" if "client_fraction srv = NaN"
    using err [of ValueError] that by (simp add: p_def py_int_def)
  have inf: "fst (select_clients srv g) = Inl OverflowError"
    if "client_fraction srv = PosInf \<or> client_fraction srv = NegInf"
    using err [of OverflowError] that n0 by (auto simp: p_def py_int_def)
  have nonpos: "fst (select_clients srv g) = Inl OverflowError \<or>
      (\<exists>ids. fst (select_clients srv g) = Inr ids \<and> length ids = 1)"
    if f: "client_fraction srv = Finite f" "f \<le> 0" for f
  proof -
    have "of_int n * f \<le> 0" using n0 f(2) by (simp add: mult_le_0_iff)
    from round64_nonpos [OF this]
    show ?thesis
    proof
      assume "round64 (of_int n * f) = NegInf"
      then have "py_int p = Inl OverflowError" using f(1) by (simp add: p_def py_int_def)
      then show ?thesis using err by blast
    next
      assume "\<exists>r. round64 (of_int n * f) = Finite r \<and> r \<le> 0"
      then obtain r where r: "round64 (of_int n * f) = Finite r" "r \<le> 0" by blast
      define k where "k = (if 0 \<le> r then \<lfloor>r\<rfloor> else \<lceil>r\<rceil>)"
      have k: "py_int p = Inr k" using r(1) f(1) by (simp add: p_def py_int_def k_def)
      have "k \<le> 0" using r(2) by (auto simp: k_def ceiling_le_iff floor_le_iff)
      then have "k \<le> num_clients srv" "max 1 k = 1" using assms(1) by simp_all
      then show ?thesis using low [OF k] by auto
    qed
  qed
  have unit: "fst (select_clients srv g) \<noteq> Inl ValueError"
    if f: "client_fraction srv = Finite f" "f \<le> 1" for f
  proof (cases "f \<le> 0")
    case True
    from nonpos [OF f(1) True] show ?thesis by auto
  next
    case False
    then have "0 < f" by simp
    from product_in_unit [OF n this f(2)]
    obtain x where x: "round64 (of_int n * f) = Finite x" "0 \<le> x" "\<lfloor>x\<rfloor> \<le> n" by blast
    have "py_int p = Inr \<lfloor>x\<rfloor>" using x(1,2) f(1) by (simp add: p_def py_int_def)
    from low [OF this] x(3) show ?thesis by (auto simp: n_def)
  qed
  show ?thesis
    using tf err high low nan inf nonpos unit by blast
qed

text \<open>
  Five clients: the fraction \<open>1.125\<close> gives the product \<open>5.625\<close> and selects five
  clients; NaN raises \<open>ValueError\<close> and infinity \<open>OverflowError\<close>.
\<close>

theorem select_clients_unchecked_witness:
  "1 \<le> num_clients (five_clients (Finite (9 / 8)))
   \<and> num_clients (five_clients (Finite (9 / 8))) \<le> 2 ^ 53
   \<and> int_times_float 5 (Finite (9 / 8)) = Inr (Finite (45 / 8))
   \<and> py_int (Finite (45 / 8)) = Inr 5
   \<and> (\<exists>ids. fst (select_clients (five_clients (Finite (9 / 8))) zero_gen) = Inr ids
         \<and> length ids = 5 \<and> distinct ids \<and> set ids \<subseteq> {0..<5})
   \<and> fst (select_clients (five_clients NaN) zero_gen) = Inl ValueError
   \<and> fst (select_clients (five_clients PosInf) zero_gen) = Inl OverflowError"
proof -
  have h: "1 \<le> num_clients (five_clients fr)" "num_clients (five_clients fr) \<le> 2 ^ 53" for fr
    by (simp_all add: five_clients_def)
  have p: "int_times_float 5 (Finite (9 / 8)) = Inr (Finite (45 / 8))"
    using round64_5 round64_45_8 by (simp add: int_times_float_def to_float_def)
  have k: "py_int (Finite (45 / 8)) = Inr 5"
    by (simp add: py_int_def)
  show ?thesis
    using select_clients_unchecked [OF h, of "Finite (9 / 8)" zero_gen]
      select_clients_unchecked [OF h, of NaN zero_gen]
      select_clients_unchecked [OF h, of PosInf zero_gen] h p k
    by (simp add: five_clients_def)
qed

text \<open>
  Claim C7 as stated fails: with five clients the fractions \<open>0\<close> and \<open>-1\<close> select one
  client and the fraction \<open>1.125\<close> selects all five, with no exception; the fraction
  \<open>-2^1023\<close> raises \<open>OverflowError\<close>.
\<close>

theorem select_clients_counterexample:
  "fst (select_clients (five_clients (Finite 0)) zero_gen) = Inr [0]
   \<and> fst (select_clients (five_clients (Finite (- 1))) zero_gen) = Inr [0]
   \<and> fst (select_clients (five_clients (Finite (9 / 8))) zero_gen) = Inr [0, 4, 3, 2, 1]
   \<and> fst (select_clients (five_clients (Finite (- (2 ^ 1023)))) zero_gen) = Inl OverflowError"
proof -
  have s: "num_clients (five_clients fr) \<le> ssize_max" for fr
    by (simp add: five_clients_def ssize_max_def)
  have n: "round64 (of_int (num_clients (five_clients fr))) = Finite 5" for fr
    using round64_5 by (simp add: five_clients_def)
  have "select_clients (five_clients (Finite 0)) zero_gen
      = sample zero_gen [0..<nat (num_clients (five_clients (Finite 0)))]
          (max 1 (if 0 \<le> (0::real) then \<lfloor>0::real\<rfloor> else \<lceil>0::real\<rceil>))"
    by (rule select_clients_eval [OF n _ _ s, where f = 0])
      (simp_all add: five_clients_def round64_0)
  then have a: "fst (select_clients (five_clients (Finite 0)) zero_gen) = Inr [0]"
    using sample_five_one by (simp add: five_clients_def)
  have "select_clients (five_clients (Finite (- 1))) zero_gen
      = sample zero_gen [0..<nat (num_clients (five_clients (Finite (- 1))))]
          (max 1 (if 0 \<le> (- 5::real) then \<lfloor>- 5::real\<rfloor> else \<lceil>- 5::real\<rceil>))"
    by (rule select_clients_eval [OF n _ _ s, where f = "- 1"])
      (simp_all add: five_clients_def round64_m5)
  then have b: "fst (select_clients (five_clients (Finite (- 1))) zero_gen) = Inr [0]"
    using sample_five_one by (simp add: five_clients_def)
  have "select_clients (five_clients (Finite (9 / 8))) zero_gen
      = sample zero_gen [0..<nat (num_clients (five_clients (Finite (9 / 8))))]
          (max 1 (if 0 \<le> (45 / 8::real) then \<lfloor>45 / 8::real\<rfloor> else \<lceil>45 / 8::real\<rceil>))"
    by (rule select_clients_eval [OF n _ _ s, where f = "9 / 8"])
      (simp_all add: five_clients_def round64_45_8)
  moreover have "\<lfloor>45 / 8::real\<rfloor> = 5" by linarith
  ultimately have c: "fst (select_clients (five_clients (Finite (9 / 8))) zero_gen) = Inr [0, 4, 3, 2, 1]"
    using sample_five_five by (simp add: five_clients_def)
  have "int_times_float 5 (Finite (- (2 ^ 1023))) = Inr NegInf"
    using round64_5 round64_overflow by (simp add: int_times_float_def to_float_def)
  then have d: "fst (select_clients (five_clients (Finite (- (2 ^ 1023)))) zero_gen) = Inl OverflowError"
    by (simp add: select_clients_def five_clients_def py_int_def)
  from a b c d show ?thesis by simp
qed

subsection \<open>Partitioning\<close>

text \<open>
  Claim C3, as amended. For \<open>num_clients >= 1\<close> the IID split returns \<open>num_clients\<close>
  shards that hold every index of the dataset, and so every example, exactly once; each
  shard but the last holds \<open>len(dataset) // num_clients\<close> indices and the last holds the
  remainder \<open>len(dataset) % num_clients\<close> more.
\<close>

theorem iid_partition:
  assumes "1 \<le> n_clients"
  shows "\<exists>shards g'. split_data g dataset n_clients ''iid'' = (Inr shards, g') \<and>
           length shards = nat n_clients \<and>
           mset (concat shards) = mset [0..<length dataset] \<and>
           mset (concat (map (subset_examples dataset) shards)) = mset dataset \<and>
           (\<forall>i<nat n_clients - 1. length (shards ! i) = length dataset div nat n_clients) \<and>
           length (shards ! (nat n_clients - 1))
             = length dataset div nat n_clients + length dataset mod nat n_clients"
proof -
  define n where "n = nat n_clients"
  define d where "d = length dataset"
  define indices where "indices = fst (shuffle g [0..<d])"
  define shards where "shards = iid_shards indices d (int n)"
  have n: "0 < n" "n_clients = int n" using assms by (simp_all add: n_def)
  have len: "length indices = d" by (simp add: indices_def shuffle_length)
  have run: "split_data g dataset n_clients ''iid'' = (Inr shards, snd (shuffle g [0..<d]))"
    using n by (simp add: split_data_def shards_def indices_def d_def Let_def split: prod.splits)
  note part = iid_shards_partition [OF n(1) len]
  have all: "mset (concat shards) = mset [0..<d]"
    using part(1) by (simp add: shards_def indices_def shuffle_mset)
  then have "mset (concat (map (subset_examples dataset) shards)) = mset dataset"
    unfolding d_def by (rule subset_examples_all)
  moreover have "length shards = n"
    and "\<forall>i<n - 1. length (shards ! i) = d div n"
    and "length (shards ! (n - 1)) = d div n + d mod n"
    using part(2,3,4) by (simp_all add: shards_def)
  ultimately have "split_data g dataset n_clients ''iid'' = (Inr shards, snd (shuffle g [0..<d])) \<and>
           length shards = n \<and>
           mset (concat shards) = mset [0..<d] \<and>
           mset (concat (map (subset_examples dataset) shards)) = mset dataset \<and>
           (\<forall>i<n - 1. length (shards ! i) = d div n) \<and>
           length (shards ! (n - 1)) = d div n + d mod n"
    using run all by simp
  then show ?thesis unfolding n_def d_def by blast
qed

text \<open>
  Seven examples and four clients: the shards hold one, one, one and four indices.
\<close>

theorem iid_partition_witness:
  "\<exists>shards g'. split_data zero_gen seven_examples 4 ''iid'' = (Inr shards, g')
     \<and> length shards = 4
     \<and> mset (concat shards) = mset [0..<7]
     \<and> mset (concat (map (subset_examples seven_examples) shards)) = mset seven_examples
     \<and> length (shards ! 0) = 1 \<and> length (shards ! 1) = 1 \<and> length (shards ! 2) = 1
     \<and> length (shards ! 3) = 4"
proof -
  have "(1::int) \<le> 4" by simp
  from iid_partition [OF this, of zero_gen seven_examples]
  obtain shards g' where s: "split_data zero_gen seven_examples 4 ''iid'' = (Inr shards, g')"
    "length shards = nat 4"
    "mset (concat shards) = mset [0..<length seven_examples]"
    "mset (concat (map (subset_examples seven_examples) shards)) = mset seven_examples"
    "\<forall>i<nat 4 - 1. length (shards ! i) = length seven_examples div nat 4"
    "length (shards ! (nat 4 - 1)) = length seven_examples div nat 4 + length seven_examples mod nat 4"
    by (elim exE conjE) (rule that, assumption+)
  note len = seven_examples_length
  have "length (shards ! 0) = 1 \<and> length (shards ! 1) = 1 \<and> length (shards ! 2) = 1"
    using s(5) by (simp add: len)
  moreover have "length (shards ! 3) = 4" using s(6) by (simp add: len)
  ultimately show ?thesis using s(1,2,3,4) len by auto
qed

text \<open>
  Claim C3 as stated fails on the same input: the sizes of the last shard and of any other
  differ by three.
\<close>

theorem iid_sizes_counterexample:
  "fst (split_data zero_gen seven_examples 4 ''iid'') = Inr [[1], [2], [3], [4, 5, 6, 0]]"
  by code_simp





subsection \<open>Local training\<close>

text \<open>
  Claim C6, as amended. For \<open>epochs >= 0\<close>, \<open>train\<close> on a client whose loader yields
  no batch fails with \<open>ZeroDivisionError\<close>, raised by the division that averages the
  loss, and returns no result.
\<close>

theorem train_empty_loader:
  assumes "data_loader c = []" and "0 \<le> epochs"
  shows "train step c epochs = Inl ZeroDivisionError"
proof (cases "epochs = 0")
  case True
  then show ?thesis by (simp add: train_def float_div_zero)
next
  case False
  then obtain n where "nat epochs = Suc n" using assms(2) by (cases "nat epochs") auto
  then show ?thesis using assms(1) by (simp add: train_def float_div_zero)
qed

text \<open>
  One epoch and zero epochs on the client with the empty loader.
\<close>

theorem train_empty_loader_witness:
  "data_loader idle_client = [] \<and> train add_step idle_client 1 = Inl ZeroDivisionError
   \<and> train add_step idle_client 0 = Inl ZeroDivisionError"
proof -
  have h: "data_loader idle_client = []" by (simp add: idle_client_def)
  show ?thesis
    using h train_empty_loader [OF h, of 1 add_step] train_empty_loader [OF h, of 0 add_step]
    by simp
qed

text \<open>
  Claim C6 as stated fails: with one epoch the division by zero is what raises, and with
  \<open>epochs = -1\<close> the call returns the untrained model and the loss \<open>0\<close>.
\<close>

theorem train_counterexample:
  "train add_step idle_client 1 = Inl ZeroDivisionError
   \<and> train add_step idle_client (- 1) = Inr (7, Finite 0)"
  by (simp add: train_def idle_client_def float_div_zero float_div_int_def to_float_def
      round64_m1 round64_0)

end
